theory Spec2Isabelle
  imports Complex_Main "HOL-Library.AList" "HOL-Library.Char_ord" "HOL-Library.List_Lexorder"
begin

section \<open>The stateful session service (6\_StatefulService/app/service.py)\<close>

text \<open>
  The service keeps all durable state on a volume: one JSON file per session under
  \<open>SESSIONS_DIR\<close>, the counter record \<open>stats.json\<close> and the append-only log
  \<open>events.jsonl\<close> under \<open>DATA_DIR\<close>. The model passes the volume explicitly
  through every function. A Python exception does not roll the disk back, so every function
  that can raise returns the volume it leaves behind together with either the error or
  the value.

  What the model takes from the environment as inputs: the draw of \<open>uuid.uuid4()\<close>,
  the readings of the clock, the identity of the container, and Python's \<open>str()\<close> on
  JSON values that are not strings (a parameter \<open>pstr\<close>, only reached when a session
  file holds an \<open>id\<close> that is not a string).

  What the model leaves out: \<open>json.dumps\<close> followed by \<open>json.loads\<close> is taken
  to give the value back, a directory is a flat table from file names to contents (an
  identifier holds no \<open>/\<close>: the route converter and uuid4 give none), and I/O errors of
  the operating system other than a missing file are not raised.
\<close>

subsection \<open>JSON values and the Python operations on them\<close>

datatype json =
    JNull
  | JBool bool
  | JInt int
  | JFloat real
  | JStr string
  | JArr "json list"
  | JObj "(string \<times> json) list"

datatype error =
    NotFound string
  | KeyError string
  | TypeError
  | AttributeError
  | Corrupt
  | FileNotFound

type_synonym dict = "(string \<times> json) list"

text \<open>A dict keeps insertion order; storing under an existing key keeps the key's place.\<close>

definition dict_get :: "dict \<Rightarrow> string \<Rightarrow> json option" where
  "dict_get d k = map_of d k"

definition dict_set :: "dict \<Rightarrow> string \<Rightarrow> json \<Rightarrow> dict" where
  "dict_set d k x = AList.update k x d"

text \<open>\<open>{**base, **extra}\<close>: the keys of \<open>extra\<close> are stored one after the other.\<close>

definition dict_merge :: "dict \<Rightarrow> dict \<Rightarrow> dict" where
  "dict_merge base extra = fold (\<lambda>(k, x) d. dict_set d k x) extra base"

text \<open>Truth value of a JSON value, as \<open>x or {}\<close> tests it.\<close>

fun py_truthy :: "json \<Rightarrow> bool" where
  "py_truthy JNull = False"
| "py_truthy (JBool b) = b"
| "py_truthy (JInt n) = (n \<noteq> 0)"
| "py_truthy (JFloat r) = (r \<noteq> 0)"
| "py_truthy (JStr s) = (s \<noteq> [])"
| "py_truthy (JArr xs) = (xs \<noteq> [])"
| "py_truthy (JObj d) = (d \<noteq> [])"

fun is_substr :: "string \<Rightarrow> string \<Rightarrow> bool" where
  "is_substr k [] = (k = [])"
| "is_substr k (c # cs) = (take (length k) (c # cs) = k \<or> is_substr k cs)"

text \<open>\<open>k in x\<close> for a string \<open>k\<close>.\<close>

fun py_contains :: "string \<Rightarrow> json \<Rightarrow> error + bool" where
  "py_contains k (JObj d) = Inr (dict_get d k \<noteq> None)"
| "py_contains k (JArr xs) = Inr (JStr k \<in> set xs)"
| "py_contains k (JStr s) = Inr (is_substr k s)"
| "py_contains k _ = Inl TypeError"

text \<open>\<open>x[k]\<close> for a string \<open>k\<close>.\<close>

fun py_getitem :: "json \<Rightarrow> string \<Rightarrow> error + json" where
  "py_getitem (JObj d) k = (case dict_get d k of None \<Rightarrow> Inl (KeyError k) | Some x \<Rightarrow> Inr x)"
| "py_getitem _ k = Inl TypeError"

text \<open>\<open>x.get(k, default)\<close>.\<close>

fun py_get :: "json \<Rightarrow> string \<Rightarrow> json \<Rightarrow> error + json" where
  "py_get (JObj d) k dflt = Inr (case dict_get d k of None \<Rightarrow> dflt | Some x \<Rightarrow> x)"
| "py_get _ k dflt = Inl AttributeError"

text \<open>\<open>x[k] = y\<close> for a string \<open>k\<close>.\<close>

fun py_setitem :: "json \<Rightarrow> string \<Rightarrow> json \<Rightarrow> error + json" where
  "py_setitem (JObj d) k y = Inr (JObj (dict_set d k y))"
| "py_setitem _ k y = Inl TypeError"

text \<open>\<open>x + 1\<close>: \<open>bool\<close> is a subclass of \<open>int\<close> in Python.\<close>

fun py_add1 :: "json \<Rightarrow> error + json" where
  "py_add1 (JInt n) = Inr (JInt (n + 1))"
| "py_add1 (JBool b) = Inr (JInt ((if b then 1 else 0) + 1))"
| "py_add1 (JFloat r) = Inr (JFloat (r + 1))"
| "py_add1 _ = Inl TypeError"

text \<open>\<open>f"{x}"\<close>: a string is itself, anything else goes through \<open>str()\<close>.\<close>

fun fstring :: "(json \<Rightarrow> string) \<Rightarrow> json \<Rightarrow> string" where
  "fstring pstr (JStr s) = s"
| "fstring pstr x = pstr x"

text \<open>\<open>xs[m:]\<close> for any integer \<open>m\<close>.\<close>

definition py_slice_from :: "int \<Rightarrow> 'a list \<Rightarrow> 'a list" where
  "py_slice_from m xs =
     (let n = int (length xs);
          start = (if m < 0 then max (n + m) 0 else min m n)
      in drop (nat start) xs)"

subsection \<open>Files, directories and paths\<close>

text \<open>
  A file written by \<open>write_text\<close> holds a complete document once the call has returned;
  between the truncating open and the end of the write it holds a strict prefix of the
  text, which \<open>json.loads\<close> rejects (every text written here is a dict).
\<close>

datatype fdata = Doc json | Torn

type_synonym dir = "(string \<times> fdata) list"

datatype line = Blank | Entry json

record volume =
  data_dir :: dir
  sessions_dir :: dir
  events_file :: "line list option"

definition file_exists :: "dir \<Rightarrow> string \<Rightarrow> bool" where
  "file_exists d n = (map_of d n \<noteq> None)"

text \<open>\<open>json.loads(p.read_text())\<close>.\<close>

definition read_json :: "dir \<Rightarrow> string \<Rightarrow> error + json" where
  "read_json d n =
     (case map_of d n of
        None \<Rightarrow> Inl FileNotFound
      | Some Torn \<Rightarrow> Inl Corrupt
      | Some (Doc j) \<Rightarrow> Inr j)"

text \<open>
  \<open>PurePath.suffix\<close> and \<open>with_suffix\<close> on the last component of a path: the suffix
  starts at the last dot, unless that dot is the first or the last character.
\<close>

definition suffix_of :: "string \<Rightarrow> string" where
  "suffix_of name =
     (if CHR ''.'' \<notin> set name then []
      else let k = length (takeWhile (\<lambda>c. c \<noteq> CHR ''.'') (rev name));
               i = length name - 1 - k
           in if 0 < i \<and> i < length name - 1 then drop i name else [])"

definition with_suffix :: "string \<Rightarrow> string \<Rightarrow> string" where
  "with_suffix name suf =
     (let old = suffix_of name
      in if old = [] then name @ suf else take (length name - length old) name @ suf)"

definition endswith :: "string \<Rightarrow> string \<Rightarrow> bool" where
  "endswith s suf = (take (length suf) (rev s) = rev suf)"

text \<open>\<open>sorted(dir.glob("*.json"))\<close>: the names of the directory that end in \<open>.json\<close>.\<close>

definition glob_json :: "dir \<Rightarrow> string list" where
  "glob_json d = sort (filter (\<lambda>n. endswith n ''.json'') (remdups (map fst d)))"

text \<open>
  The steps of the file system that a write goes through. \<open>write_text\<close> is \<open>Open\<close>
  (create or truncate) followed by \<open>Flush\<close> (the whole text is in the file);
  \<open>Rename\<close> replaces the target in one step.
\<close>

datatype fs_step = Open string | Flush string json | Rename string string

fun apply_step :: "fs_step \<Rightarrow> dir \<Rightarrow> error + dir" where
  "apply_step (Open n) d = Inr (AList.update n Torn d)"
| "apply_step (Flush n j) d = Inr (AList.update n (Doc j) d)"
| "apply_step (Rename src dst) d =
     (case map_of d src of
        None \<Rightarrow> Inl FileNotFound
      | Some c \<Rightarrow> Inr (AList.update dst c (AList.delete src d)))"

fun run_steps :: "fs_step list \<Rightarrow> dir \<Rightarrow> dir \<times> error option" where
  "run_steps [] d = (d, None)"
| "run_steps (s # ss) d =
     (case apply_step s d of
        Inl e \<Rightarrow> (d, Some e)
      | Inr d' \<Rightarrow> run_steps ss d')"

text \<open>
  \<open>tmp = p.with_suffix(".tmp"); tmp.write_text(json.dumps(x, indent=2)); tmp.rename(p)\<close>,
  the body shared by \<open>_save_stats\<close> and \<open>_save_session\<close>.
\<close>

definition write_steps :: "string \<Rightarrow> json \<Rightarrow> fs_step list" where
  "write_steps p x = (let tmp = with_suffix p ''.tmp'' in [Open tmp, Flush tmp x, Rename tmp p])"

subsection \<open>Volume helpers\<close>

definition STATS_FILE :: string where
  "STATS_FILE = ''stats.json''"

definition load_stats :: "volume \<Rightarrow> error + json" where
  "load_stats v =
     (if file_exists (data_dir v) STATS_FILE then read_json (data_dir v) STATS_FILE
      else Inr (JObj [(''startup_count'', JInt 0), (''crash_count'', JInt 0),
                      (''total_sessions'', JInt 0), (''total_requests'', JInt 0)]))"

text \<open>
  \<open>save_stats_upto k\<close> is \<open>_save_stats\<close> stopped after \<open>k\<close> steps of the file
  system (the process killed, or the write raising); \<open>_save_stats\<close> runs all three.
\<close>

definition save_stats_upto :: "nat \<Rightarrow> json \<Rightarrow> volume \<Rightarrow> volume \<times> (error + unit)" where
  "save_stats_upto k s v =
     (case run_steps (take k (write_steps STATS_FILE s)) (data_dir v) of
        (d, None) \<Rightarrow> (v\<lparr>data_dir := d\<rparr>, Inr ())
      | (d, Some e) \<Rightarrow> (v\<lparr>data_dir := d\<rparr>, Inl e))"

definition save_stats :: "json \<Rightarrow> volume \<Rightarrow> volume \<times> (error + unit)" where
  "save_stats s v = save_stats_upto 3 s v"

text \<open>The clock readings and the container identity that \<open>_log_event\<close> puts in an entry.\<close>

record env =
  container :: string
  log_ts :: real
  log_time :: string

definition log_event :: "env \<Rightarrow> string \<Rightarrow> dict \<Rightarrow> volume \<Rightarrow> volume" where
  "log_event e kind extra v =
     (let entry = dict_merge [(''ts'', JFloat (log_ts e)), (''time'', JStr (log_time e)),
                              (''event'', JStr kind), (''container'', JStr (container e))] extra
      in v\<lparr>events_file :=
             Some ((case events_file v of None \<Rightarrow> [] | Some ls \<Rightarrow> ls) @ [Entry (JObj entry)])\<rparr>)"

definition session_path :: "string \<Rightarrow> string" where
  "session_path sid = sid @ ''.json''"

definition load_session :: "string \<Rightarrow> volume \<Rightarrow> error + json" where
  "load_session sid v =
     (let p = session_path sid
      in if \<not> file_exists (sessions_dir v) p then Inl (NotFound sid)
         else read_json (sessions_dir v) p)"

definition save_session_upto ::
  "nat \<Rightarrow> (json \<Rightarrow> string) \<Rightarrow> json \<Rightarrow> volume \<Rightarrow> volume \<times> (error + unit)" where
  "save_session_upto k pstr sess v =
     (case py_getitem sess ''id'' of
        Inl e \<Rightarrow> (v, Inl e)
      | Inr i \<Rightarrow>
          (case run_steps (take k (write_steps (session_path (fstring pstr i)) sess))
                  (sessions_dir v) of
             (d, None) \<Rightarrow> (v\<lparr>sessions_dir := d\<rparr>, Inr ())
           | (d, Some e) \<Rightarrow> (v\<lparr>sessions_dir := d\<rparr>, Inl e)))"

definition save_session :: "(json \<Rightarrow> string) \<Rightarrow> json \<Rightarrow> volume \<Rightarrow> volume \<times> (error + unit)" where
  "save_session pstr sess v = save_session_upto 3 pstr sess v"

subsection \<open>Bootstrap (module level, lines 77 to 85)\<close>

text \<open>
  The two \<open>mkdir\<close> calls make the directories exist; in the model a directory always
  exists and may be empty. The arguments of the \<open>startup\<close> event are read from the dict
  after it has been saved, so a missing \<open>crash_count\<close> raises after the write.
\<close>

definition bootstrap :: "env \<Rightarrow> volume \<Rightarrow> volume \<times> (error + unit)" where
  "bootstrap e v =
     (case load_stats v of Inl err \<Rightarrow> (v, Inl err) | Inr st \<Rightarrow>
      (case py_get st ''startup_count'' (JInt 0) of Inl err \<Rightarrow> (v, Inl err) | Inr c \<Rightarrow>
      (case py_add1 c of Inl err \<Rightarrow> (v, Inl err) | Inr c' \<Rightarrow>
      (case py_setitem st ''startup_count'' c' of Inl err \<Rightarrow> (v, Inl err) | Inr st' \<Rightarrow>
      (case save_stats st' v of (v1, Inl err) \<Rightarrow> (v1, Inl err) | (v1, Inr _) \<Rightarrow>
      (case py_getitem st' ''startup_count'' of Inl err \<Rightarrow> (v1, Inl err) | Inr a \<Rightarrow>
      (case py_getitem st' ''crash_count'' of Inl err \<Rightarrow> (v1, Inl err) | Inr b \<Rightarrow>
        (log_event e ''startup'' [(''startup_count'', a), (''crash_count'', b)] v1, Inr ()))))))))"

subsection \<open>Routes\<close>

text \<open>
  \<open>create_session\<close>: \<open>sid\<close> is the draw of \<open>uuid.uuid4()\<close>, \<open>now\<close> the formatted
  clock reading of line 127, \<open>body0\<close> what \<open>request.get_json(silent=True)\<close> returns
  (\<open>JNull\<close> when there is no JSON body). The result is the session sent back.
\<close>

definition create_session ::
  "(json \<Rightarrow> string) \<Rightarrow> env \<Rightarrow> string \<Rightarrow> string \<Rightarrow> json \<Rightarrow> volume \<Rightarrow> volume \<times> (error + json)" where
  "create_session pstr e sid now body0 v =
     (let body = (if py_truthy body0 then body0 else JObj []) in
      (case py_get body ''name'' (JStr ''unnamed'') of Inl err \<Rightarrow> (v, Inl err) | Inr nm \<Rightarrow>
      (case py_get body ''data'' (JObj []) of Inl err \<Rightarrow> (v, Inl err) | Inr dt \<Rightarrow>
      let sess = JObj [(''id'', JStr sid), (''name'', nm), (''data'', dt),
                       (''created_at'', JStr now), (''last_active'', JStr now),
                       (''access_count'', JInt 0)] in
      (case save_session pstr sess v of (v1, Inl err) \<Rightarrow> (v1, Inl err) | (v1, Inr _) \<Rightarrow>
      let v2 = log_event e ''session_created'' [(''session_id'', JStr sid), (''name'', nm)] v1 in
      (case load_stats v2 of Inl err \<Rightarrow> (v2, Inl err) | Inr s \<Rightarrow>
      (case py_get s ''total_sessions'' (JInt 0) of Inl err \<Rightarrow> (v2, Inl err) | Inr c \<Rightarrow>
      (case py_add1 c of Inl err \<Rightarrow> (v2, Inl err) | Inr c' \<Rightarrow>
      (case py_setitem s ''total_sessions'' c' of Inl err \<Rightarrow> (v2, Inl err) | Inr s' \<Rightarrow>
      (case save_stats s' v2 of (v3, Inl err) \<Rightarrow> (v3, Inl err) | (v3, Inr _) \<Rightarrow>
        (v3, Inr sess))))))))))"

fun read_all :: "dir \<Rightarrow> string list \<Rightarrow> error + json list" where
  "read_all d [] = Inr []"
| "read_all d (n # ns) =
     (case read_json d n of Inl err \<Rightarrow> Inl err | Inr j \<Rightarrow>
      (case read_all d ns of Inl err \<Rightarrow> Inl err | Inr js \<Rightarrow> Inr (j # js)))"

definition list_sessions :: "volume \<Rightarrow> error + json list" where
  "list_sessions v = read_all (sessions_dir v) (glob_json (sessions_dir v))"

definition get_session :: "string \<Rightarrow> volume \<Rightarrow> error + json" where
  "get_session sid v = load_session sid v"

text \<open>Lines 159 to 165 of \<open>update_session\<close>: the changes to the loaded dict, in memory.\<close>

definition update_fields :: "string \<Rightarrow> json \<Rightarrow> json \<Rightarrow> error + json" where
  "update_fields now body0 sess =
     (let body = (if py_truthy body0 then body0 else JObj []) in
      (case py_contains ''name'' body of Inl err \<Rightarrow> Inl err | Inr has_name \<Rightarrow>
      (case (if has_name
            then (case py_getitem body ''name'' of Inl err \<Rightarrow> Inl err
                  | Inr x \<Rightarrow> py_setitem sess ''name'' x)
            else Inr sess) of Inl err \<Rightarrow> Inl err | Inr s1 \<Rightarrow>
      (case py_contains ''data'' body of Inl err \<Rightarrow> Inl err | Inr has_data \<Rightarrow>
      (case (if has_data
            then (case py_getitem body ''data'' of Inl err \<Rightarrow> Inl err
                  | Inr x \<Rightarrow> py_setitem s1 ''data'' x)
            else Inr s1) of Inl err \<Rightarrow> Inl err | Inr s2 \<Rightarrow>
      (case py_setitem s2 ''last_active'' (JStr now) of Inl err \<Rightarrow> Inl err | Inr s3 \<Rightarrow>
      (case py_get s3 ''access_count'' (JInt 0) of Inl err \<Rightarrow> Inl err | Inr c \<Rightarrow>
      (case py_add1 c of Inl err \<Rightarrow> Inl err | Inr c' \<Rightarrow>
        py_setitem s3 ''access_count'' c'))))))))"

definition update_session ::
  "(json \<Rightarrow> string) \<Rightarrow> env \<Rightarrow> string \<Rightarrow> string \<Rightarrow> json \<Rightarrow> volume \<Rightarrow> volume \<times> (error + json)" where
  "update_session pstr e now sid body0 v =
     (case load_session sid v of Inl err \<Rightarrow> (v, Inl err) | Inr sess0 \<Rightarrow>
      (case update_fields now body0 sess0 of Inl err \<Rightarrow> (v, Inl err) | Inr sess \<Rightarrow>
      (case save_session pstr sess v of (v1, Inl err) \<Rightarrow> (v1, Inl err) | (v1, Inr _) \<Rightarrow>
        (log_event e ''session_updated'' [(''session_id'', JStr sid)] v1, Inr sess))))"

definition unlink :: "dir \<Rightarrow> string \<Rightarrow> error + dir" where
  "unlink d n = (if file_exists d n then Inr (AList.delete n d) else Inl FileNotFound)"

definition delete_session :: "env \<Rightarrow> string \<Rightarrow> volume \<Rightarrow> volume \<times> (error + json)" where
  "delete_session e sid v =
     (case load_session sid v of Inl err \<Rightarrow> (v, Inl err) | Inr _ \<Rightarrow>
      (case unlink (sessions_dir v) (session_path sid) of Inl err \<Rightarrow> (v, Inl err) | Inr d \<Rightarrow>
        (log_event e ''session_deleted'' [(''session_id'', JStr sid)] (v\<lparr>sessions_dir := d\<rparr>),
         Inr (JObj [(''status'', JStr ''deleted''), (''id'', JStr sid)]))))"

fun entries :: "line list \<Rightarrow> json list" where
  "entries [] = []"
| "entries (Blank # ls) = entries ls"
| "entries (Entry j # ls) = j # entries ls"

text \<open>
  \<open>list_events\<close>: \<open>arg\<close> is the integer value of the query parameter \<open>limit\<close> when it
  is given. The result is the pair (\<open>events\<close>, \<open>count\<close>) of the response.
\<close>

definition list_events :: "int option \<Rightarrow> volume \<Rightarrow> json list \<times> nat" where
  "list_events arg v =
     (case events_file v of
        None \<Rightarrow> ([], 0)
      | Some ls \<Rightarrow>
          (let events = entries ls;
               limit = (case arg of None \<Rightarrow> 50 | Some n \<Rightarrow> n)
           in (py_slice_from (- limit) events, length events)))"

text \<open>\<open>crash\<close>: the value \<open>Inr 1\<close> is the status of \<open>os._exit(1)\<close>, the last statement.\<close>

definition crash :: "env \<Rightarrow> volume \<Rightarrow> volume \<times> (error + nat)" where
  "crash e v =
     (case load_stats v of Inl err \<Rightarrow> (v, Inl err) | Inr s \<Rightarrow>
      (case py_get s ''crash_count'' (JInt 0) of Inl err \<Rightarrow> (v, Inl err) | Inr c \<Rightarrow>
      (case py_add1 c of Inl err \<Rightarrow> (v, Inl err) | Inr c' \<Rightarrow>
      (case py_setitem s ''crash_count'' c' of Inl err \<Rightarrow> (v, Inl err) | Inr s' \<Rightarrow>
      (case save_stats s' v of (v1, Inl err) \<Rightarrow> (v1, Inl err) | (v1, Inr _) \<Rightarrow>
      (case py_getitem s' ''crash_count'' of Inl err \<Rightarrow> (v1, Inl err) | Inr x \<Rightarrow>
        (log_event e ''crash_triggered'' [(''crash_count'', x)] v1, Inr 1)))))))"

subsection \<open>Sequences of operations\<close>

text \<open>
  The operations that write to the volume, each with the inputs its handler takes from
  the environment. \<open>exec\<close> gives the volume an operation leaves behind, whether it
  returned or raised.
\<close>

datatype op =
    Start env
  | Crash env
  | Create env string string json
  | Update env string string json
  | Delete env string

fun exec :: "(json \<Rightarrow> string) \<Rightarrow> op \<Rightarrow> volume \<Rightarrow> volume" where
  "exec pstr (Start e) v = fst (bootstrap e v)"
| "exec pstr (Crash e) v = fst (crash e v)"
| "exec pstr (Create e sid now body) v = fst (create_session pstr e sid now body v)"
| "exec pstr (Update e now sid body) v = fst (update_session pstr e now sid body v)"
| "exec pstr (Delete e sid) v = fst (delete_session e sid v)"

definition run :: "(json \<Rightarrow> string) \<Rightarrow> op list \<Rightarrow> volume \<Rightarrow> volume" where
  "run pstr ops v = fold (exec pstr) ops v"

definition empty_volume :: volume where
  "empty_volume = \<lparr>data_dir = [], sessions_dir = [], events_file = None\<rparr>"

text \<open>
  Replaying the event log: a \<open>session_created\<close> entry adds its identifier, a
  \<open>session_deleted\<close> entry removes it, every other line leaves the set as it is.
\<close>

definition replay_step :: "line \<Rightarrow> string list \<Rightarrow> string list" where
  "replay_step l ids =
     (case l of
        Entry (JObj d) \<Rightarrow>
          (case (dict_get d ''event'', dict_get d ''session_id'') of
             (Some (JStr k), Some (JStr sid)) \<Rightarrow>
               if k = ''session_created'' then List.insert sid ids
               else if k = ''session_deleted'' then removeAll sid ids
               else ids
           | _ \<Rightarrow> ids)
      | _ \<Rightarrow> ids)"

definition replay :: "line list \<Rightarrow> string list" where
  "replay ls = fold replay_step ls []"

definition log_lines :: "volume \<Rightarrow> line list" where
  "log_lines v = (case events_file v of None \<Rightarrow> [] | Some ls \<Rightarrow> ls)"

subsection \<open>Handlers stopped part-way\<close>

text \<open>
  A handler changes the volume one step of the file system at a time, in the order of its
  statements: the three steps of \<open>_save_session\<close> (or the one \<open>unlink\<close>), then the one
  append of \<open>_log_event\<close>, then for \<open>create_session\<close> the three steps of
  \<open>_save_stats\<close>. \<open>create_session_upto k\<close>, \<open>update_session_upto k\<close> and
  \<open>delete_session_upto k\<close> give the volume left behind when the process is stopped after
  \<open>k\<close> of these steps; each call that writes receives the steps that remain after the
  calls before it. Reads take no step.
\<close>

definition log_event_upto :: "nat \<Rightarrow> env \<Rightarrow> string \<Rightarrow> dict \<Rightarrow> volume \<Rightarrow> volume" where
  "log_event_upto k e kind extra v = (if k = 0 then v else log_event e kind extra v)"

definition unlink_upto :: "nat \<Rightarrow> dir \<Rightarrow> string \<Rightarrow> error + dir" where
  "unlink_upto k d n = (if k = 0 then Inr d else unlink d n)"

definition create_session_upto ::
  "nat \<Rightarrow> (json \<Rightarrow> string) \<Rightarrow> env \<Rightarrow> string \<Rightarrow> string \<Rightarrow> json \<Rightarrow> volume \<Rightarrow> volume" where
  "create_session_upto k pstr e sid now body0 v =
     (let body = (if py_truthy body0 then body0 else JObj []) in
      (case py_get body ''name'' (JStr ''unnamed'') of Inl err \<Rightarrow> v | Inr nm \<Rightarrow>
      (case py_get body ''data'' (JObj []) of Inl err \<Rightarrow> v | Inr dt \<Rightarrow>
      let sess = JObj [(''id'', JStr sid), (''name'', nm), (''data'', dt),
                       (''created_at'', JStr now), (''last_active'', JStr now),
                       (''access_count'', JInt 0)] in
      (case save_session_upto k pstr sess v of (v1, Inl err) \<Rightarrow> v1 | (v1, Inr _) \<Rightarrow>
      let v2 = log_event_upto (k - 3) e ''session_created''
                 [(''session_id'', JStr sid), (''name'', nm)] v1 in
      (case load_stats v2 of Inl err \<Rightarrow> v2 | Inr s \<Rightarrow>
      (case py_get s ''total_sessions'' (JInt 0) of Inl err \<Rightarrow> v2 | Inr c \<Rightarrow>
      (case py_add1 c of Inl err \<Rightarrow> v2 | Inr c' \<Rightarrow>
      (case py_setitem s ''total_sessions'' c' of Inl err \<Rightarrow> v2 | Inr s' \<Rightarrow>
        fst (save_stats_upto (k - 4) s' v2)))))))))"

definition update_session_upto ::
  "nat \<Rightarrow> (json \<Rightarrow> string) \<Rightarrow> env \<Rightarrow> string \<Rightarrow> string \<Rightarrow> json \<Rightarrow> volume \<Rightarrow> volume" where
  "update_session_upto k pstr e now sid body0 v =
     (case load_session sid v of Inl err \<Rightarrow> v | Inr sess0 \<Rightarrow>
      (case update_fields now body0 sess0 of Inl err \<Rightarrow> v | Inr sess \<Rightarrow>
      (case save_session_upto k pstr sess v of (v1, Inl err) \<Rightarrow> v1 | (v1, Inr _) \<Rightarrow>
        log_event_upto (k - 3) e ''session_updated'' [(''session_id'', JStr sid)] v1)))"

definition delete_session_upto :: "nat \<Rightarrow> env \<Rightarrow> string \<Rightarrow> volume \<Rightarrow> volume" where
  "delete_session_upto k e sid v =
     (case load_session sid v of Inl err \<Rightarrow> v | Inr _ \<Rightarrow>
      (case unlink_upto k (sessions_dir v) (session_path sid) of Inl err \<Rightarrow> v | Inr d \<Rightarrow>
        log_event_upto (k - 1) e ''session_deleted'' [(''session_id'', JStr sid)]
          (v\<lparr>sessions_dir := d\<rparr>)))"

subsection \<open>Observations used in the properties\<close>

fun is_start :: "op \<Rightarrow> bool" where
  "is_start (Start e) = True"
| "is_start _ = False"

fun is_crash :: "op \<Rightarrow> bool" where
  "is_crash (Crash e) = True"
| "is_crash _ = False"

text \<open>One field of the counter record, read the way the service reads it.\<close>

definition counter :: "volume \<Rightarrow> string \<Rightarrow> json option" where
  "counter v k = (case load_stats v of Inr (JObj d) \<Rightarrow> dict_get d k | _ \<Rightarrow> None)"

text \<open>The counter record can be incremented at \<open>total_sessions\<close>.\<close>

definition stats_ok :: "volume \<Rightarrow> bool" where
  "stats_ok v =
     (case load_stats v of
        Inr (JObj d) \<Rightarrow>
          (case py_add1 (case dict_get d ''total_sessions'' of None \<Rightarrow> JInt 0 | Some x \<Rightarrow> x) of
             Inr _ \<Rightarrow> True
           | Inl _ \<Rightarrow> False)
      | _ \<Rightarrow> False)"

text \<open>The document held by a file (\<open>JNull\<close> when there is none).\<close>

definition doc_at :: "dir \<Rightarrow> string \<Rightarrow> json" where
  "doc_at d n = (case map_of d n of Some (Doc j) \<Rightarrow> j | _ \<Rightarrow> JNull)"

text \<open>
  Every committed session file (a name matched by \<open>*.json\<close>) holds a dict whose
  \<open>id\<close> is the name of the file without the extension.
\<close>

definition id_matches :: "dir \<Rightarrow> string \<Rightarrow> bool" where
  "id_matches d n =
     (case map_of d n of
        Some (Doc (JObj sess)) \<Rightarrow>
          (case dict_get sess ''id'' of Some (JStr sid) \<Rightarrow> n = session_path sid | _ \<Rightarrow> False)
      | _ \<Rightarrow> False)"

definition id_invariant :: "dir \<Rightarrow> bool" where
  "id_invariant d = list_all (id_matches d) (glob_json d)"

text \<open>The session files on disk are those of the identifiers the log replays to.\<close>

definition consistent :: "volume \<Rightarrow> bool" where
  "consistent v = (set (glob_json (sessions_dir v)) = session_path ` set (replay (log_lines v)))"

text \<open>The kind and the session identifier of a log line.\<close>

definition event_sig :: "line \<Rightarrow> json option \<times> json option" where
  "event_sig l =
     (case l of
        Entry (JObj d) \<Rightarrow> (dict_get d ''event'', dict_get d ''session_id'')
      | _ \<Rightarrow> (None, None))"

text \<open>The lines an operation has added to the log.\<close>

definition appended :: "volume \<Rightarrow> volume \<Rightarrow> line list" where
  "appended v v' = drop (length (log_lines v)) (log_lines v')"

text \<open>The directory after a complete write of \<open>x\<close> to the file \<open>p\<close>.\<close>

definition committed :: "string \<Rightarrow> json \<Rightarrow> dir \<Rightarrow> dir" where
  "committed p x d = fst (run_steps (write_steps p x) d)"

text \<open>The dict that \<open>create_session\<close> builds from a body that is the dict \<open>b\<close>.\<close>

definition new_session :: "string \<Rightarrow> string \<Rightarrow> dict \<Rightarrow> dict" where
  "new_session sid now b =
     [(''id'', JStr sid),
      (''name'', case dict_get b ''name'' of None \<Rightarrow> JStr ''unnamed'' | Some x \<Rightarrow> x),
      (''data'', case dict_get b ''data'' of None \<Rightarrow> JObj [] | Some x \<Rightarrow> x),
      (''created_at'', JStr now), (''last_active'', JStr now), (''access_count'', JInt 0)]"

text \<open>
  At a moment \<open>vk\<close> of an operation that starts at \<open>v\<close> and ends at \<open>vf\<close>: either
  no line has been added to the log yet, or the session directory is already as the
  operation leaves it and the log has grown by exactly one line, of the given kind and
  for the given identifier.
\<close>

definition event_after_record :: "volume \<Rightarrow> volume \<Rightarrow> volume \<Rightarrow> string \<Rightarrow> string \<Rightarrow> bool" where
  "event_after_record v vk vf kind sid =
     (log_lines vk = log_lines v
      \<or> (sessions_dir vk = sessions_dir vf
         \<and> log_lines vk = log_lines v @ appended v vk
         \<and> map event_sig (appended v vk) = [(Some (JStr kind), Some (JStr sid))]))"

section \<open>Properties\<close>

subsection \<open>Paths and the steps of a write\<close>

lemma suffix_of_json: "suffix_of (sid @ ''.json'') = (if sid = [] then [] else ''.json'')"
  by (simp add: suffix_of_def Let_def)

lemma with_suffix_json:
  "with_suffix (sid @ ''.json'') ''.tmp'' = (if sid = [] then ''.json.tmp'' else sid @ ''.tmp'')"
  by (simp add: with_suffix_def suffix_of_json Let_def)

lemma session_tmp_neq: "with_suffix (session_path sid) ''.tmp'' \<noteq> session_path sid"
  by (simp add: with_suffix_json session_path_def)

lemma session_tmp_not_json: "\<not> endswith (with_suffix (session_path sid) ''.tmp'') ''.json''"
  by (simp add: with_suffix_json session_path_def endswith_def)

lemma session_path_json: "endswith (session_path sid) ''.json''"
  by (simp add: session_path_def endswith_def)

lemma session_path_inj: "session_path a = session_path b \<longleftrightarrow> a = b"
  by (simp add: session_path_def)

lemma stats_tmp: "with_suffix STATS_FILE ''.tmp'' = ''stats.tmp''"
  by (simp add: with_suffix_def suffix_of_def STATS_FILE_def Let_def)

lemma take_three:
  "take k [a, b, c] =
     (if k = 0 then [] else if k = 1 then [a] else if k = 2 then [a, b] else [a, b, c])"
proof -
  consider "k = 0" | "k = 1" | "k = 2" | "3 \<le> k" by linarith
  then show ?thesis
  proof cases
    case 4
    then show ?thesis by simp
  qed (simp_all add: numeral_2_eq_2)
qed

lemma write_upto_target:
  assumes "tmp \<noteq> p"
  shows "map_of (fst (run_steps (take k [Open tmp, Flush tmp x, Rename tmp p]) d)) p =
           (if k < 3 then map_of d p else Some (Doc x))"
  using assms by (simp add: take_three update_conv' delete_conv')

lemma write_upto_no_error:
  "snd (run_steps (take k [Open tmp, Flush tmp x, Rename tmp p]) d) = None"
  by (simp add: take_three update_conv')

subsection \<open>Atomic record writes\<close>

text \<open>
  C1. A write of the counter record or of a session record goes through three steps: the
  temporary file beside the target is opened, the whole text is written to it, and it is
  renamed over the target. Stopped after any number \<open>k\<close> of these steps (the process
  killed, or the write to the temporary file failing), the target holds what it held
  before the write when the rename has not happened (\<open>k < 3\<close>), and the complete new
  value otherwise: never a partial text.
\<close>

theorem durable_write_old_or_new:
  "map_of (data_dir (fst (save_stats_upto k s v))) STATS_FILE =
     (if k < 3 then map_of (data_dir v) STATS_FILE else Some (Doc s))
   \<and> (py_getitem sess ''id'' = Inr i \<longrightarrow>
        map_of (sessions_dir (fst (save_session_upto k pstr sess v)))
               (session_path (fstring pstr i)) =
          (if k < 3 then map_of (sessions_dir v) (session_path (fstring pstr i))
           else Some (Doc sess)))"
proof (intro conjI impI)
  have neq: "''stats.tmp'' \<noteq> STATS_FILE" by (simp add: STATS_FILE_def)
  show "map_of (data_dir (fst (save_stats_upto k s v))) STATS_FILE =
     (if k < 3 then map_of (data_dir v) STATS_FILE else Some (Doc s))"
    using write_upto_target [OF neq, of k s "data_dir v"]
      write_upto_no_error [of k "''stats.tmp''" s STATS_FILE "data_dir v"]
    by (auto simp: save_stats_upto_def write_steps_def stats_tmp Let_def
             split: prod.splits option.splits)
next
  assume i: "py_getitem sess ''id'' = Inr i"
  let ?p = "session_path (fstring pstr i)"
  show "map_of (sessions_dir (fst (save_session_upto k pstr sess v))) ?p =
          (if k < 3 then map_of (sessions_dir v) ?p else Some (Doc sess))"
    using write_upto_target [OF session_tmp_neq, of k "fstring pstr i" sess "sessions_dir v"]
      write_upto_no_error [of k "with_suffix ?p ''.tmp''" sess ?p "sessions_dir v"] i
    by (auto simp: save_session_upto_def write_steps_def Let_def
             split: prod.splits option.splits)
qed

theorem durable_write_old_or_new_witness:
  "map_of (sessions_dir (fst (save_session_upto 2 (\<lambda>x. []) (JObj [(''id'', JStr ''a'')])
       \<lparr>data_dir = [], sessions_dir = [(''a.json'', Doc JNull)], events_file = None\<rparr>)))
     (session_path ''a'') = Some (Doc JNull)
   \<and> map_of (sessions_dir (fst (save_session_upto 3 (\<lambda>x. []) (JObj [(''id'', JStr ''a'')])
       \<lparr>data_dir = [], sessions_dir = [(''a.json'', Doc JNull)], events_file = None\<rparr>)))
     (session_path ''a'') = Some (Doc (JObj [(''id'', JStr ''a'')]))"
  using durable_write_old_or_new [of 2 JNull
      "\<lparr>data_dir = [], sessions_dir = [(''a.json'', Doc JNull)], events_file = None\<rparr>"
      "JObj [(''id'', JStr ''a'')]" "JStr ''a''" "\<lambda>x. []"]
    durable_write_old_or_new [of 3 JNull
      "\<lparr>data_dir = [], sessions_dir = [(''a.json'', Doc JNull)], events_file = None\<rparr>"
      "JObj [(''id'', JStr ''a'')]" "JStr ''a''" "\<lambda>x. []"]
  by (simp add: dict_get_def session_path_def)

subsection \<open>Complete writes\<close>

lemma run_write_steps: "run_steps (write_steps p x) d = (committed p x d, None)"
  by (simp add: committed_def write_steps_def Let_def update_conv')

lemma map_of_committed:
  assumes "with_suffix p ''.tmp'' \<noteq> p"
  shows "map_of (committed p x d) = (map_of d)(with_suffix p ''.tmp'' := None, p \<mapsto> Doc x)"
  using assms by (simp add: committed_def write_steps_def Let_def update_conv' delete_conv')

lemma names_committed:
  "fst ` set (committed p x d) = insert p (fst ` set d - {with_suffix p ''.tmp''})"
proof -
  have "dom (map_of (committed p x d)) = insert p (dom (map_of d) - {with_suffix p ''.tmp''})"
    by (auto simp: committed_def write_steps_def Let_def update_conv' delete_conv'
          split: if_splits)
  then show ?thesis by (simp add: dom_map_of_conv_image_fst)
qed

lemma take3_write_steps: "take 3 (write_steps p x) = write_steps p x"
  by (simp add: write_steps_def Let_def)

lemma save_stats_eq:
  "save_stats s v = (v\<lparr>data_dir := committed STATS_FILE s (data_dir v)\<rparr>, Inr ())"
  by (simp add: save_stats_def save_stats_upto_def take3_write_steps run_write_steps)

lemma save_session_eq:
  assumes "dict_get sess ''id'' = Some i"
  shows "save_session pstr (JObj sess) v =
     (v\<lparr>sessions_dir := committed (session_path (fstring pstr i)) (JObj sess) (sessions_dir v)\<rparr>, Inr ())"
  using assms
  by (simp add: save_session_def save_session_upto_def take3_write_steps run_write_steps)

lemma stats_tmp_neq: "with_suffix STATS_FILE ''.tmp'' \<noteq> STATS_FILE"
  unfolding stats_tmp by (simp add: STATS_FILE_def)

lemma load_stats_committed:
  "load_stats (v\<lparr>data_dir := committed STATS_FILE s d\<rparr>) = Inr s"
  by (simp add: load_stats_def file_exists_def read_json_def map_of_committed [OF stats_tmp_neq])

lemma load_session_committed:
  "load_session sid (v\<lparr>sessions_dir := committed (session_path sid) x d\<rparr>) = Inr x"
  by (simp add: load_session_def file_exists_def read_json_def Let_def
        map_of_committed [OF session_tmp_neq])

lemma load_session_committed_other:
  assumes "sid' \<noteq> sid"
  shows "load_session sid' (v\<lparr>sessions_dir := committed (session_path sid) x d\<rparr>) =
         load_session sid' (v\<lparr>sessions_dir := d\<rparr>)"
proof -
  have "session_path sid' \<noteq> with_suffix (session_path sid) ''.tmp''"
    using session_tmp_not_json [of sid] session_path_json [of sid'] by auto
  then show ?thesis
    using assms
    by (simp add: load_session_def file_exists_def read_json_def Let_def
        map_of_committed [OF session_tmp_neq] session_path_inj)
qed

lemma set_glob_json: "set (glob_json d) = {n \<in> fst ` set d. endswith n ''.json''}"
  by (auto simp: glob_json_def)

lemma glob_committed_session:
  "set (glob_json (committed (session_path sid) x d)) = insert (session_path sid) (set (glob_json d))"
  using session_tmp_not_json [of sid] session_path_json [of sid]
  by (auto simp: set_glob_json names_committed)

lemma set_glob_delete: "set (glob_json (AList.delete p d)) = set (glob_json d) - {p}"
proof -
  have "dom (map_of (AList.delete p d)) = dom (map_of d) - {p}"
    by (auto simp: delete_conv')
  then have "fst ` set (AList.delete p d) = fst ` set d - {p}"
    by (simp add: dom_map_of_conv_image_fst)
  then show ?thesis by (auto simp: set_glob_json)
qed

lemma load_session_cong:
  "sessions_dir v = sessions_dir v' \<Longrightarrow> load_session sid v = load_session sid v'"
  by (simp add: load_session_def Let_def)

lemma log_lines_log_event:
  "log_lines (log_event e kind extra v) =
     log_lines v @ [Entry (JObj (dict_merge [(''ts'', JFloat (log_ts e)), (''time'', JStr (log_time e)),
                              (''event'', JStr kind), (''container'', JStr (container e))] extra))]"
  by (simp add: log_event_def log_lines_def Let_def)

lemma log_event_dirs [simp]:
  "sessions_dir (log_event e kind extra v) = sessions_dir v"
  "data_dir (log_event e kind extra v) = data_dir v"
  by (simp_all add: log_event_def Let_def)

lemma load_session_log_event [simp]:
  "load_session sid (log_event e kind extra v) = load_session sid v"
  by (simp add: load_session_def Let_def)

lemma log_lines_upd [simp]:
  "log_lines (v\<lparr>sessions_dir := d\<rparr>) = log_lines v"
  "log_lines (v\<lparr>data_dir := d\<rparr>) = log_lines v"
  by (simp_all add: log_lines_def)

subsection \<open>Reading the event log\<close>

lemma list_events_missing: "events_file v = None \<Longrightarrow> list_events arg v = ([], 0)"
  by (simp add: list_events_def)

lemma list_events_positive:
  assumes "events_file v = Some ls" and "0 < n"
  shows "list_events (Some n) v =
           (drop (length (entries ls) - nat n) (entries ls), length (entries ls))"
proof -
  have "nat (max (int (length (entries ls)) - n) 0) = length (entries ls) - nat n"
    using assms(2) by linarith
  then show ?thesis
    using assms by (simp add: list_events_def py_slice_from_def Let_def)
qed

lemma list_events_default:
  assumes "events_file v = Some ls"
  shows "list_events None v = (drop (length (entries ls) - 50) (entries ls), length (entries ls))"
proof -
  have "nat (max (int (length (entries ls)) - 50) 0) = length (entries ls) - 50"
    by linarith
  then show ?thesis
    using assms by (simp add: list_events_def py_slice_from_def Let_def)
qed

text \<open>
  C7. \<open>list_events\<close> returns the slice \<open>events[-limit:]\<close>. For a positive limit that is
  the last \<open>limit\<close> entries (lemma \<open>list_events_positive\<close>), the default is 50 and a
  missing file gives the empty list. At \<open>limit = 0\<close> the slice is \<open>events[0:]\<close>: on a
  log of two entries the response holds both entries, not the most recent zero.
\<close>

theorem list_events_limit_zero:
  "list_events (Some 0) \<lparr>data_dir = [], sessions_dir = [],
       events_file = Some [Entry (JInt 1), Entry (JInt 2)]\<rparr> = ([JInt 1, JInt 2], 2)"
  by (simp add: list_events_def py_slice_from_def)

subsection \<open>Deleting a session\<close>

text \<open>
  C6. When the file of the identifier holds a complete document, \<open>get_session\<close> returns
  it and \<open>delete_session\<close> returns the \<open>deleted\<close> response; afterwards the file of
  the identifier is gone from the session directory and from the listing, every other
  file is as before and none is added (no tombstone), the counter directory is
  untouched, \<open>get_session\<close> on the identifier signals \<open>NotFound\<close>, and the log has
  grown by exactly one line, a \<open>session_deleted\<close> entry for the identifier. When the
  session directory has no file for the identifier, \<open>delete_session\<close> signals
  \<open>NotFound\<close> and leaves the whole volume, the log included, as it was.
\<close>

theorem delete_session_effect:
  "(map_of (sessions_dir v) (session_path sid) = Some (Doc j) \<longrightarrow>
      get_session sid v = Inr j
      \<and> snd (delete_session e sid v) = Inr (JObj [(''status'', JStr ''deleted''), (''id'', JStr sid)])
      \<and> map_of (sessions_dir (fst (delete_session e sid v))) =
          (map_of (sessions_dir v))(session_path sid := None)
      \<and> set (glob_json (sessions_dir (fst (delete_session e sid v)))) =
          set (glob_json (sessions_dir v)) - {session_path sid}
      \<and> get_session sid (fst (delete_session e sid v)) = Inl (NotFound sid)
      \<and> data_dir (fst (delete_session e sid v)) = data_dir v
      \<and> log_lines (fst (delete_session e sid v)) =
          log_lines v @ appended v (fst (delete_session e sid v))
      \<and> map event_sig (appended v (fst (delete_session e sid v))) =
          [(Some (JStr ''session_deleted''), Some (JStr sid))])
   \<and> (map_of (sessions_dir v) (session_path sid) = None \<longrightarrow>
        delete_session e sid v = (v, Inl (NotFound sid)))"
proof (intro conjI impI)
  assume a: "map_of (sessions_dir v) (session_path sid) = Some (Doc j)"
  then have l: "load_session sid v = Inr j"
    by (simp add: load_session_def Let_def file_exists_def read_json_def)
  have ex: "file_exists (sessions_dir v) (session_path sid)"
    using a by (simp add: file_exists_def)
  have d: "delete_session e sid v =
      (log_event e ''session_deleted'' [(''session_id'', JStr sid)]
         (v\<lparr>sessions_dir := AList.delete (session_path sid) (sessions_dir v)\<rparr>),
       Inr (JObj [(''status'', JStr ''deleted''), (''id'', JStr sid)]))"
    using l ex by (simp add: delete_session_def unlink_def)
  show "get_session sid v = Inr j" using l by (simp add: get_session_def)
  show "snd (delete_session e sid v) = Inr (JObj [(''status'', JStr ''deleted''), (''id'', JStr sid)])"
    by (simp add: d)
  show "map_of (sessions_dir (fst (delete_session e sid v))) =
          (map_of (sessions_dir v))(session_path sid := None)"
    by (simp add: d delete_conv')
  show "set (glob_json (sessions_dir (fst (delete_session e sid v)))) =
          set (glob_json (sessions_dir v)) - {session_path sid}"
    by (simp add: d set_glob_delete)
  show "get_session sid (fst (delete_session e sid v)) = Inl (NotFound sid)"
    by (simp add: d get_session_def load_session_def Let_def file_exists_def delete_conv')
  show "data_dir (fst (delete_session e sid v)) = data_dir v"
    by (simp add: d)
  show "log_lines (fst (delete_session e sid v)) =
          log_lines v @ appended v (fst (delete_session e sid v))"
    by (simp add: d appended_def log_lines_log_event)
  show "map event_sig (appended v (fst (delete_session e sid v))) =
          [(Some (JStr ''session_deleted''), Some (JStr sid))]"
    by (simp add: d appended_def log_lines_log_event event_sig_def
          dict_merge_def dict_set_def dict_get_def)
next
  assume "map_of (sessions_dir v) (session_path sid) = None"
  then show "delete_session e sid v = (v, Inl (NotFound sid))"
    by (simp add: delete_session_def load_session_def Let_def file_exists_def)
qed

theorem delete_session_effect_witness:
  "get_session ''a'' \<lparr>data_dir = [],
       sessions_dir = [(''a.json'', Doc (JObj [(''id'', JStr ''a'')])), (''b.json'', Doc JNull)],
       events_file = None\<rparr> = Inr (JObj [(''id'', JStr ''a'')])
   \<and> snd (delete_session \<lparr>container = ''c'', log_ts = 0, log_time = ''t''\<rparr> ''a''
       \<lparr>data_dir = [],
        sessions_dir = [(''a.json'', Doc (JObj [(''id'', JStr ''a'')])), (''b.json'', Doc JNull)],
        events_file = None\<rparr>) = Inr (JObj [(''status'', JStr ''deleted''), (''id'', JStr ''a'')])
   \<and> map_of (sessions_dir (fst (delete_session \<lparr>container = ''c'', log_ts = 0, log_time = ''t''\<rparr> ''a''
       \<lparr>data_dir = [],
        sessions_dir = [(''a.json'', Doc (JObj [(''id'', JStr ''a'')])), (''b.json'', Doc JNull)],
        events_file = None\<rparr>))) ''a.json'' = None
   \<and> map_of (sessions_dir (fst (delete_session \<lparr>container = ''c'', log_ts = 0, log_time = ''t''\<rparr> ''a''
       \<lparr>data_dir = [],
        sessions_dir = [(''a.json'', Doc (JObj [(''id'', JStr ''a'')])), (''b.json'', Doc JNull)],
        events_file = None\<rparr>))) ''b.json'' = Some (Doc JNull)
   \<and> set (glob_json (sessions_dir (fst (delete_session \<lparr>container = ''c'', log_ts = 0, log_time = ''t''\<rparr> ''a''
       \<lparr>data_dir = [],
        sessions_dir = [(''a.json'', Doc (JObj [(''id'', JStr ''a'')])), (''b.json'', Doc JNull)],
        events_file = None\<rparr>)))) = {''b.json''}
   \<and> get_session ''a'' (fst (delete_session \<lparr>container = ''c'', log_ts = 0, log_time = ''t''\<rparr> ''a''
       \<lparr>data_dir = [],
        sessions_dir = [(''a.json'', Doc (JObj [(''id'', JStr ''a'')])), (''b.json'', Doc JNull)],
        events_file = None\<rparr>)) = Inl (NotFound ''a'')
   \<and> delete_session \<lparr>container = ''c'', log_ts = 0, log_time = ''t''\<rparr> ''z''
       \<lparr>data_dir = [],
        sessions_dir = [(''a.json'', Doc (JObj [(''id'', JStr ''a'')])), (''b.json'', Doc JNull)],
        events_file = None\<rparr>
     = (\<lparr>data_dir = [],
         sessions_dir = [(''a.json'', Doc (JObj [(''id'', JStr ''a'')])), (''b.json'', Doc JNull)],
         events_file = None\<rparr>, Inl (NotFound ''z''))"
proof -
  let ?v = "\<lparr>data_dir = [],
        sessions_dir = [(''a.json'', Doc (JObj [(''id'', JStr ''a'')])), (''b.json'', Doc JNull)],
        events_file = None\<rparr>"
  let ?e = "\<lparr>container = ''c'', log_ts = 0, log_time = ''t''\<rparr>"
  have a: "map_of (sessions_dir ?v) (session_path ''a'') = Some (Doc (JObj [(''id'', JStr ''a'')]))"
    by (simp add: session_path_def)
  have z: "map_of (sessions_dir ?v) (session_path ''z'') = None"
    by (simp add: session_path_def)
  have g: "set (glob_json (sessions_dir ?v)) = {''a.json'', ''b.json''}"
    by (auto simp: set_glob_json endswith_def)
  show ?thesis
    using delete_session_effect [where sid = "''a''" and v = ?v and e = ?e
        and j = "JObj [(''id'', JStr ''a'')]"]
      delete_session_effect [where sid = "''z''" and v = ?v and e = ?e and j = JNull] a z g
    by (auto simp: session_path_def)
qed

subsection \<open>The counter record\<close>

lemma counter_absent:
  assumes "\<not> file_exists (data_dir v) STATS_FILE"
  shows "counter v ''startup_count'' = Some (JInt 0)" "counter v ''crash_count'' = Some (JInt 0)"
    "counter v ''total_sessions'' = Some (JInt 0)" "counter v ''total_requests'' = Some (JInt 0)"
  using assms by (simp_all add: counter_def load_stats_def dict_get_def)

lemma counter_log_event [simp]: "counter (log_event e kind extra v) k = counter v k"
  by (simp add: counter_def load_stats_def)

lemma counter_sessions_upd [simp]: "counter (v\<lparr>sessions_dir := d\<rparr>) k = counter v k"
  by (simp add: counter_def load_stats_def)

lemma load_stats_sessions_upd [simp]: "load_stats (v\<lparr>sessions_dir := d\<rparr>) = load_stats v"
  by (simp add: load_stats_def)

lemma load_stats_log_event [simp]: "load_stats (log_event e kind extra v) = load_stats v"
  by (simp add: load_stats_def)

lemma counter_committed:
  "counter (v\<lparr>data_dir := committed STATS_FILE (JObj d) dd\<rparr>) k = dict_get d k"
  by (simp add: counter_def load_stats_committed)

lemma dict_get_set: "dict_get (dict_set d k x) k' = (if k' = k then Some x else dict_get d k')"
  by (simp add: dict_get_def dict_set_def update_conv')

lemma bootstrap_counter_other:
  assumes "k \<noteq> ''startup_count''"
  shows "counter (fst (bootstrap e v)) k = counter v k"
proof (cases "load_stats v")
  case (Inl err)
  then show ?thesis by (simp add: bootstrap_def)
next
  case (Inr st)
  show ?thesis
  proof (cases st)
    case (JObj d)
    show ?thesis
    proof (cases "py_add1 (case dict_get d ''startup_count'' of None \<Rightarrow> JInt 0 | Some x \<Rightarrow> x)")
      case (Inl err)
      then show ?thesis using Inr JObj by (simp add: bootstrap_def)
    next
      case r: (Inr c')
      then show ?thesis using Inr JObj assms
        by (auto simp: bootstrap_def save_stats_eq counter_def load_stats_committed dict_get_set
              split: option.splits)
    qed
  qed (use Inr in \<open>simp_all add: bootstrap_def\<close>)
qed

lemma bootstrap_counter_startup:
  assumes "counter v ''startup_count'' = Some (JInt n)"
  shows "counter (fst (bootstrap e v)) ''startup_count'' = Some (JInt (n + 1))"
proof -
  from assms obtain d where d: "load_stats v = Inr (JObj d)" "dict_get d ''startup_count'' = Some (JInt n)"
    by (auto simp: counter_def split: sum.splits json.splits)
  then show ?thesis
    by (simp add: bootstrap_def save_stats_eq counter_committed dict_get_set split: option.splits)
qed


lemma crash_counter_other:
  assumes "k \<noteq> ''crash_count''"
  shows "counter (fst (crash e v)) k = counter v k"
proof (cases "load_stats v")
  case (Inl err)
  then show ?thesis by (simp add: crash_def)
next
  case (Inr st)
  show ?thesis
  proof (cases st)
    case (JObj d)
    show ?thesis
    proof (cases "py_add1 (case dict_get d ''crash_count'' of None \<Rightarrow> JInt 0 | Some x \<Rightarrow> x)")
      case (Inl err)
      then show ?thesis using Inr JObj by (simp add: crash_def)
    next
      case r: (Inr c')
      then show ?thesis using Inr JObj assms
        by (auto simp: crash_def save_stats_eq counter_def load_stats_committed dict_get_set
              split: option.splits)
    qed
  qed (use Inr in \<open>simp_all add: crash_def\<close>)
qed

lemma crash_counter_crash:
  assumes "counter v ''crash_count'' = Some (JInt n)"
  shows "counter (fst (crash e v)) ''crash_count'' = Some (JInt (n + 1))"
proof -
  from assms obtain d where d: "load_stats v = Inr (JObj d)" "dict_get d ''crash_count'' = Some (JInt n)"
    by (auto simp: counter_def split: sum.splits json.splits)
  then show ?thesis
    by (simp add: crash_def save_stats_eq counter_committed dict_get_set split: option.splits)
qed

lemma crash_result:
  assumes "counter v ''crash_count'' = Some (JInt n)"
  shows "snd (crash e v) = Inr 1"
    and "log_lines (fst (crash e v)) = log_lines v @ appended v (fst (crash e v))"
    and "map event_sig (appended v (fst (crash e v))) = [(Some (JStr ''crash_triggered''), None)]"
    and "map (\<lambda>l. case l of Entry j \<Rightarrow> py_getitem j ''crash_count'' | Blank \<Rightarrow> Inl TypeError)
           (appended v (fst (crash e v))) = [Inr (JInt (n + 1))]"
proof -
  from assms obtain d where d: "load_stats v = Inr (JObj d)" "dict_get d ''crash_count'' = Some (JInt n)"
    by (auto simp: counter_def split: sum.splits json.splits)
  then show "snd (crash e v) = Inr 1"
    and "log_lines (fst (crash e v)) = log_lines v @ appended v (fst (crash e v))"
    and "map event_sig (appended v (fst (crash e v))) = [(Some (JStr ''crash_triggered''), None)]"
    and "map (\<lambda>l. case l of Entry j \<Rightarrow> py_getitem j ''crash_count'' | Blank \<Rightarrow> Inl TypeError)
           (appended v (fst (crash e v))) = [Inr (JInt (n + 1))]"
    by (simp_all add: crash_def save_stats_eq appended_def log_lines_log_event
        event_sig_def dict_merge_def dict_set_def dict_get_def update_conv')
qed

lemma create_counter_other:
  assumes "k \<noteq> ''total_sessions''"
  shows "counter (fst (create_session pstr e sid now body v)) k = counter v k"
proof -
  define body' where "body' = (if py_truthy body then body else JObj [])"
  show ?thesis
  proof (cases body')
    case (JObj b)
    define sess where "sess = [(''id'', JStr sid), (''name'', case dict_get b ''name'' of None \<Rightarrow> JStr ''unnamed'' | Some x \<Rightarrow> x),
        (''data'', case dict_get b ''data'' of None \<Rightarrow> JObj [] | Some x \<Rightarrow> x),
        (''created_at'', JStr now), (''last_active'', JStr now), (''access_count'', JInt 0)]"
    have id: "dict_get sess ''id'' = Some (JStr sid)" by (simp add: sess_def dict_get_def)
    show ?thesis
    proof (cases "load_stats v")
      case (Inl err)
      then show ?thesis using JObj id
        by (simp add: create_session_def Let_def body'_def [symmetric] sess_def [symmetric]
            save_session_eq)
    next
      case (Inr st)
      show ?thesis
      proof (cases st)
        case j: (JObj d)
        show ?thesis
        proof (cases "py_add1 (case dict_get d ''total_sessions'' of None \<Rightarrow> JInt 0 | Some x \<Rightarrow> x)")
          case (Inl err)
          then show ?thesis using Inr JObj j id
            by (simp add: create_session_def Let_def body'_def [symmetric] sess_def [symmetric]
                save_session_eq)
        next
          case r: (Inr c')
          then show ?thesis using Inr JObj j id assms
            by (simp add: create_session_def Let_def body'_def [symmetric] sess_def [symmetric]
                save_session_eq save_stats_eq counter_committed dict_get_set)
              (simp add: counter_def)
        qed
      qed (use Inr JObj id in \<open>simp_all add: create_session_def Let_def body'_def [symmetric] sess_def [symmetric]
                save_session_eq\<close>)
    qed
  qed (simp_all add: create_session_def Let_def body'_def [symmetric])
qed

lemma update_data_dir: "data_dir (fst (update_session pstr e now sid body v)) = data_dir v"
  by (auto simp: update_session_def save_session_def save_session_upto_def
      split: sum.splits prod.splits option.splits)

lemma delete_data_dir: "data_dir (fst (delete_session e sid v)) = data_dir v"
  by (auto simp: delete_session_def split: sum.splits)

lemma counter_data_dir: "data_dir v' = data_dir v \<Longrightarrow> counter v' k = counter v k"
  by (simp add: counter_def load_stats_def)


lemma exec_counter_startup:
  assumes "counter v ''startup_count'' = Some (JInt n)"
  shows "counter (exec pstr op v) ''startup_count'' = Some (JInt (n + (if is_start op then 1 else 0)))"
proof (cases op)
  case (Start e)
  then show ?thesis using bootstrap_counter_startup [OF assms] by simp
next
  case (Crash e)
  then show ?thesis using assms by (simp add: crash_counter_other)
next
  case (Create e sid now body)
  then show ?thesis using assms by (simp add: create_counter_other)
next
  case (Update e now sid body)
  then show ?thesis using assms counter_data_dir [OF update_data_dir] by simp
next
  case (Delete e sid)
  then show ?thesis using assms counter_data_dir [OF delete_data_dir] by simp
qed

lemma exec_counter_crash:
  assumes "counter v ''crash_count'' = Some (JInt n)"
  shows "counter (exec pstr op v) ''crash_count'' = Some (JInt (n + (if is_crash op then 1 else 0)))"
proof (cases op)
  case (Start e)
  then show ?thesis using assms by (simp add: bootstrap_counter_other)
next
  case (Crash e)
  then show ?thesis using crash_counter_crash [OF assms] by simp
next
  case (Create e sid now body)
  then show ?thesis using assms by (simp add: create_counter_other)
next
  case (Update e now sid body)
  then show ?thesis using assms counter_data_dir [OF update_data_dir] by simp
next
  case (Delete e sid)
  then show ?thesis using assms counter_data_dir [OF delete_data_dir] by simp
qed

lemma run_counters:
  assumes "counter v ''startup_count'' = Some (JInt n)" and "counter v ''crash_count'' = Some (JInt k)"
  shows "counter (run pstr ops v) ''startup_count'' = Some (JInt (n + int (length (filter is_start ops))))
       \<and> counter (run pstr ops v) ''crash_count'' = Some (JInt (k + int (length (filter is_crash ops))))"
  using assms
proof (induction ops arbitrary: v n k)
  case Nil
  then show ?case by (simp add: run_def)
next
  case (Cons op ops)
  have "run pstr (op # ops) v = run pstr ops (exec pstr op v)" by (simp add: run_def)
  then show ?case
    using Cons.IH [OF exec_counter_startup [OF Cons.prems(1)] exec_counter_crash [OF Cons.prems(2)]]
    by (simp add: add.assoc)
qed

text \<open>
  C2. On a volume with no counter record the four fields read as zero. After any sequence
  of operations (starts, crashes, and session operations in any order) the persisted
  \<open>startup_count\<close> is the number of starts in the sequence and the persisted
  \<open>crash_count\<close> the number of crashes. A crash from such a state stores the
  incremented \<open>crash_count\<close>, appends one \<open>crash_triggered\<close> line that carries the
  new count, and ends with exit status 1.
\<close>

theorem counters_count_starts_and_crashes:
  assumes "\<not> file_exists (data_dir v0) STATS_FILE"
  shows "counter v0 ''startup_count'' = Some (JInt 0) \<and> counter v0 ''crash_count'' = Some (JInt 0)
       \<and> counter v0 ''total_sessions'' = Some (JInt 0) \<and> counter v0 ''total_requests'' = Some (JInt 0)
       \<and> counter (run pstr ops v0) ''startup_count'' = Some (JInt (int (length (filter is_start ops))))
       \<and> counter (run pstr ops v0) ''crash_count'' = Some (JInt (int (length (filter is_crash ops))))
       \<and> snd (crash e (run pstr ops v0)) = Inr 1
       \<and> counter (fst (crash e (run pstr ops v0))) ''crash_count'' =
             Some (JInt (int (length (filter is_crash ops)) + 1))
       \<and> log_lines (fst (crash e (run pstr ops v0))) =
             log_lines (run pstr ops v0) @ appended (run pstr ops v0) (fst (crash e (run pstr ops v0)))
       \<and> map event_sig (appended (run pstr ops v0) (fst (crash e (run pstr ops v0)))) =
             [(Some (JStr ''crash_triggered''), None)]
       \<and> map (\<lambda>l. case l of Entry j \<Rightarrow> py_getitem j ''crash_count'' | Blank \<Rightarrow> Inl TypeError)
             (appended (run pstr ops v0) (fst (crash e (run pstr ops v0)))) =
             [Inr (JInt (int (length (filter is_crash ops)) + 1))]"
proof -
  note z = counter_absent [OF assms]
  from run_counters [OF z(1) z(2), of pstr ops]
  have s: "counter (run pstr ops v0) ''startup_count'' = Some (JInt (int (length (filter is_start ops))))"
    and c: "counter (run pstr ops v0) ''crash_count'' = Some (JInt (int (length (filter is_crash ops))))"
    by simp_all
  show ?thesis
    using z s c crash_counter_crash [OF c, of e] crash_result [OF c, of e] by simp
qed

theorem counters_count_starts_and_crashes_witness:
  "counter (run (\<lambda>x. [])
       [Start \<lparr>container = ''c1'', log_ts = 0, log_time = ''t''\<rparr>,
        Crash \<lparr>container = ''c1'', log_ts = 0, log_time = ''t''\<rparr>,
        Start \<lparr>container = ''c2'', log_ts = 0, log_time = ''t''\<rparr>] empty_volume) ''startup_count''
     = Some (JInt 2)
   \<and> counter (run (\<lambda>x. [])
       [Start \<lparr>container = ''c1'', log_ts = 0, log_time = ''t''\<rparr>,
        Crash \<lparr>container = ''c1'', log_ts = 0, log_time = ''t''\<rparr>,
        Start \<lparr>container = ''c2'', log_ts = 0, log_time = ''t''\<rparr>] empty_volume) ''crash_count''
     = Some (JInt 1)"
  using counters_count_starts_and_crashes [of empty_volume "\<lambda>x. []"
       "[Start \<lparr>container = ''c1'', log_ts = 0, log_time = ''t''\<rparr>,
        Crash \<lparr>container = ''c1'', log_ts = 0, log_time = ''t''\<rparr>,
        Start \<lparr>container = ''c2'', log_ts = 0, log_time = ''t''\<rparr>]"
       "\<lparr>container = ''c1'', log_ts = 0, log_time = ''t''\<rparr>"]
  by (simp add: empty_volume_def file_exists_def)

subsection \<open>Creating and updating a session\<close>

lemma create_session_ok:
  assumes "(if py_truthy body then body else JObj []) = JObj b"
    and "load_stats v = Inr (JObj st)"
    and "py_add1 (case dict_get st ''total_sessions'' of None \<Rightarrow> JInt 0 | Some x \<Rightarrow> x) = Inr c'"
  shows "create_session pstr e sid now body v =
     ((log_event e ''session_created''
          [(''session_id'', JStr sid),
           (''name'', case dict_get b ''name'' of None \<Rightarrow> JStr ''unnamed'' | Some x \<Rightarrow> x)]
          (v\<lparr>sessions_dir := committed (session_path sid) (JObj (new_session sid now b)) (sessions_dir v)\<rparr>))
        \<lparr>data_dir := committed STATS_FILE (JObj (dict_set st ''total_sessions'' c')) (data_dir v)\<rparr>,
      Inr (JObj (new_session sid now b)))"
proof -
  have id: "dict_get (new_session sid now b) ''id'' = Some (JStr sid)"
    by (simp add: new_session_def dict_get_def)
  show ?thesis
    using assms save_session_eq [OF id, of pstr v]
    by (simp add: create_session_def Let_def new_session_def [symmetric] save_stats_eq)
qed

lemma stats_okD:
  assumes "stats_ok v"
  obtains st c' where "load_stats v = Inr (JObj st)"
    and "py_add1 (case dict_get st ''total_sessions'' of None \<Rightarrow> JInt 0 | Some x \<Rightarrow> x) = Inr c'"
proof -
  from assms obtain st where st: "load_stats v = Inr (JObj st)"
    by (auto simp: stats_ok_def split: sum.splits json.splits)
  with assms obtain c' where
    "py_add1 (case dict_get st ''total_sessions'' of None \<Rightarrow> JInt 0 | Some x \<Rightarrow> x) = Inr c'"
    by (cases "py_add1 (case dict_get st ''total_sessions'' of None \<Rightarrow> JInt 0 | Some x \<Rightarrow> x)")
       (auto simp: stats_ok_def)
  with st that show ?thesis by blast
qed

lemma get_new_session:
  "py_getitem (JObj (new_session sid now b)) ''id'' = Inr (JStr sid)"
  "py_getitem (JObj (new_session sid now b)) ''name'' =
     Inr (case dict_get b ''name'' of None \<Rightarrow> JStr ''unnamed'' | Some x \<Rightarrow> x)"
  "py_getitem (JObj (new_session sid now b)) ''data'' =
     Inr (case dict_get b ''data'' of None \<Rightarrow> JObj [] | Some x \<Rightarrow> x)"
  "py_getitem (JObj (new_session sid now b)) ''created_at'' = Inr (JStr now)"
  "py_getitem (JObj (new_session sid now b)) ''last_active'' = Inr (JStr now)"
  "py_getitem (JObj (new_session sid now b)) ''access_count'' = Inr (JInt 0)"
  by (simp_all add: new_session_def dict_get_def)

lemma get_session_upd [simp]:
  "get_session sid (v\<lparr>data_dir := d\<rparr>) = get_session sid v"
  "get_session sid (log_event e kind extra v) = get_session sid v"
  by (simp_all add: get_session_def load_session_def Let_def)

lemma get_session_committed:
  "get_session sid' (v\<lparr>sessions_dir := committed (session_path sid) x (sessions_dir v)\<rparr>) =
     (if sid' = sid then Inr x else get_session sid' v)"
  by (simp add: get_session_def load_session_committed load_session_committed_other)

lemma dict_get_Nil: "dict_get [] k = None"
  by (simp add: dict_get_def)

text \<open>
  C9. With a counter record that can be incremented, \<open>create_session\<close> on a body
  without a \<open>name\<close> key returns a session named \<open>unnamed\<close>, on a body without a
  \<open>data\<close> key a session whose payload is the empty object, and on an absent or empty
  body both; in each case the call returns the session and the session is stored.
\<close>

theorem create_defaults:
  assumes "stats_ok v"
  shows "(dict_get b ''name'' = None \<longrightarrow>
           (case create_session pstr e sid now (JObj b) v of
              (v', Inr s) \<Rightarrow> py_getitem s ''name'' = Inr (JStr ''unnamed'') \<and> get_session sid v' = Inr s
            | (v', Inl err) \<Rightarrow> False))
       \<and> (dict_get b ''data'' = None \<longrightarrow>
           (case create_session pstr e sid now (JObj b) v of
              (v', Inr s) \<Rightarrow> py_getitem s ''data'' = Inr (JObj []) \<and> get_session sid v' = Inr s
            | (v', Inl err) \<Rightarrow> False))
       \<and> (\<not> py_truthy body \<longrightarrow>
           (case create_session pstr e sid now body v of
              (v', Inr s) \<Rightarrow> py_getitem s ''name'' = Inr (JStr ''unnamed'')
                 \<and> py_getitem s ''data'' = Inr (JObj []) \<and> get_session sid v' = Inr s
            | (v', Inl err) \<Rightarrow> False))"
proof -
  from assms obtain st c' where st: "load_stats v = Inr (JObj st)"
    "py_add1 (case dict_get st ''total_sessions'' of None \<Rightarrow> JInt 0 | Some x \<Rightarrow> x) = Inr c'"
    by (rule stats_okD)
  have b: "(if py_truthy (JObj b) then JObj b else JObj []) = JObj b" by simp
  have e: "\<not> py_truthy body \<Longrightarrow> (if py_truthy body then body else JObj []) = JObj []" by simp
  show ?thesis
    using create_session_ok [OF b st, of pstr e sid now] create_session_ok [OF e st, of pstr e sid now]
    by (simp add: get_new_session get_session_committed dict_get_Nil del: py_getitem.simps)
qed


theorem create_defaults_witness:
  "stats_ok empty_volume
   \<and> (case create_session (\<lambda>x. []) \<lparr>container = ''c'', log_ts = 0, log_time = ''t''\<rparr> ''a'' ''now''
            (JObj [(''data'', JInt 1)]) empty_volume of
         (v', Inr s) \<Rightarrow> py_getitem s ''name'' = Inr (JStr ''unnamed'') \<and> get_session ''a'' v' = Inr s
       | (v', Inl err) \<Rightarrow> False)
   \<and> (case create_session (\<lambda>x. []) \<lparr>container = ''c'', log_ts = 0, log_time = ''t''\<rparr> ''a'' ''now''
            JNull empty_volume of
         (v', Inr s) \<Rightarrow> py_getitem s ''name'' = Inr (JStr ''unnamed'')
            \<and> py_getitem s ''data'' = Inr (JObj []) \<and> get_session ''a'' v' = Inr s
       | (v', Inl err) \<Rightarrow> False)"
proof -
  have ok: "stats_ok empty_volume"
    by (simp add: stats_ok_def load_stats_def empty_volume_def file_exists_def dict_get_def)
  show ?thesis
    using ok create_defaults [OF ok, where b = "[(''data'', JInt 1)]" and pstr = "\<lambda>x. []"
        and e = "\<lparr>container = ''c'', log_ts = 0, log_time = ''t''\<rparr>" and sid = "''a''"
        and now = "''now''" and body = JNull]
    by (simp add: dict_get_def)
qed

lemma distinct_glob_json: "distinct (glob_json d)"
  by (simp add: glob_json_def)

lemma glob_absent:
  assumes "\<not> file_exists d n"
  shows "n \<notin> set (glob_json d)"
proof -
  from assms have "n \<notin> dom (map_of d)" by (auto simp: file_exists_def)
  then show ?thesis by (simp add: set_glob_json dom_map_of_conv_image_fst)
qed

lemma length_glob_committed:
  assumes "\<not> file_exists d (session_path sid)"
  shows "length (glob_json (committed (session_path sid) x d)) = Suc (length (glob_json d))"
proof -
  have "card (set (glob_json (committed (session_path sid) x d))) = Suc (card (set (glob_json d)))"
    using glob_absent [OF assms] by (simp add: glob_committed_session)
  then show ?thesis by (simp add: distinct_card distinct_glob_json)
qed

lemma event_sig_log_event:
  assumes "fst ` set rest \<inter> {''event'', ''session_id''} = {}"
  shows "map event_sig (appended v (log_event e kind ((''session_id'', x) # rest) v)) =
           [(Some (JStr kind), Some x)]"
proof -
  have *: "\<And>k base. k \<notin> fst ` set rest \<Longrightarrow>
       map_of (fold (\<lambda>(k, x) d. AList.update k x d) rest base) k = map_of base k"
  proof -
    fix k :: string and base :: dict
    assume "k \<notin> fst ` set rest"
    then show "map_of (fold (\<lambda>(k, x) d. AList.update k x d) rest base) k = map_of base k"
      by (induction rest arbitrary: base) (auto simp: update_conv')
  qed
  have a: "''event'' \<notin> fst ` set rest" and b: "''session_id'' \<notin> fst ` set rest"
    using assms by auto
  show ?thesis
    by (simp add: appended_def log_lines_log_event event_sig_def dict_merge_def dict_set_def
        dict_get_def * [OF a] * [OF b] update_conv')
qed

lemma appended_data_dir [simp]: "appended v (v'\<lparr>data_dir := d\<rparr>) = appended v v'"
  by (simp add: appended_def)

lemma log_lines_appended_log_event:
  "log_lines (log_event e kind extra v) = log_lines v @ appended v (log_event e kind extra v)"
  by (simp add: appended_def log_lines_log_event)

lemma appended_sessions_upd [simp]:
  "appended v (log_event e kind extra (v\<lparr>sessions_dir := d\<rparr>)) = appended v (log_event e kind extra v)"
  by (simp add: appended_def log_lines_log_event)

lemma glob_present:
  assumes "file_exists d n" and "endswith n ''.json''"
  shows "n \<in> set (glob_json d)"
proof -
  from assms(1) have "n \<in> dom (map_of d)" by (auto simp: file_exists_def)
  then show ?thesis using assms(2) by (simp add: set_glob_json dom_map_of_conv_image_fst)
qed

lemma length_glob_committed_if:
  "length (glob_json (committed (session_path sid) x d)) =
     (if file_exists d (session_path sid) then length (glob_json d)
      else Suc (length (glob_json d)))"
proof (cases "file_exists d (session_path sid)")
  case True
  then have "session_path sid \<in> set (glob_json d)"
    by (rule glob_present) (rule session_path_json)
  then have "set (glob_json (committed (session_path sid) x d)) = set (glob_json d)"
    by (auto simp: glob_committed_session)
  then have "card (set (glob_json (committed (session_path sid) x d))) = card (set (glob_json d))"
    by simp
  then show ?thesis using True by (simp add: distinct_card distinct_glob_json)
next
  case False
  then show ?thesis by (simp add: length_glob_committed)
qed

text \<open>
  C5. \<open>create_session\<close> takes its identifier from the draw of \<open>uuid.uuid4()\<close> and
  makes no comparison with the records on disk. For every draw, with a counter record
  whose \<open>total_sessions\<close> is the integer \<open>t\<close>, the call returns a session with the
  drawn identifier, both timestamps equal to the creation instant and \<open>access_count\<close>
  0; the session is stored under the identifier, every other session reads as before,
  the session files are those from before together with the file of the identifier (one
  more file when the draw names no existing record, the same number when it names one,
  whose record is then replaced), exactly one \<open>session_created\<close> line for the
  identifier is appended to the log, and the persisted \<open>total_sessions\<close> is
  \<open>t + 1\<close>.
\<close>

theorem create_session_effect:
  assumes "counter v ''total_sessions'' = Some (JInt t)"
  shows "case create_session pstr e sid now (JObj b) v of
           (v', Inr s) \<Rightarrow>
             py_getitem s ''id'' = Inr (JStr sid)
             \<and> py_getitem s ''created_at'' = Inr (JStr now)
             \<and> py_getitem s ''last_active'' = Inr (JStr now)
             \<and> py_getitem s ''access_count'' = Inr (JInt 0)
             \<and> get_session sid v' = Inr s
             \<and> (\<forall>sid'. sid' \<noteq> sid \<longrightarrow> get_session sid' v' = get_session sid' v)
             \<and> set (glob_json (sessions_dir v')) =
                 insert (session_path sid) (set (glob_json (sessions_dir v)))
             \<and> length (glob_json (sessions_dir v')) =
                 (if file_exists (sessions_dir v) (session_path sid)
                  then length (glob_json (sessions_dir v))
                  else Suc (length (glob_json (sessions_dir v))))
             \<and> log_lines v' = log_lines v @ appended v v'
             \<and> map event_sig (appended v v') = [(Some (JStr ''session_created''), Some (JStr sid))]
             \<and> counter v' ''total_sessions'' = Some (JInt (t + 1))
         | (v', Inl err) \<Rightarrow> False"
proof -
  from assms(1) obtain st where st: "load_stats v = Inr (JObj st)"
    "dict_get st ''total_sessions'' = Some (JInt t)"
    by (auto simp: counter_def split: sum.splits json.splits)
  then have add: "py_add1 (case dict_get st ''total_sessions'' of None \<Rightarrow> JInt 0 | Some x \<Rightarrow> x) = Inr (JInt (t + 1))"
    by simp
  have b: "(if py_truthy (JObj b) then JObj b else JObj []) = JObj b" by simp
  have sig: "map event_sig (appended v (log_event e ''session_created''
          [(''session_id'', JStr sid),
           (''name'', case dict_get b ''name'' of None \<Rightarrow> JStr ''unnamed'' | Some x \<Rightarrow> x)] v)) =
       [(Some (JStr ''session_created''), Some (JStr sid))]"
    by (rule event_sig_log_event) simp
  show ?thesis
    unfolding create_session_ok [OF b st(1) add]
    using sig
    by (simp add: get_new_session get_session_committed glob_committed_session
        length_glob_committed_if
        counter_committed dict_get_set log_lines_log_event appended_def
        del: py_getitem.simps)
qed

theorem create_session_effect_witness:
  "case create_session (\<lambda>x. []) \<lparr>container = ''c'', log_ts = 0, log_time = ''t''\<rparr> ''a'' ''now''
          (JObj [(''name'', JStr ''alpha'')]) empty_volume of
     (v', Inr s) \<Rightarrow>
        py_getitem s ''id'' = Inr (JStr ''a'') \<and> py_getitem s ''access_count'' = Inr (JInt 0)
        \<and> get_session ''a'' v' = Inr s \<and> counter v' ''total_sessions'' = Some (JInt 1)
        \<and> length (glob_json (sessions_dir v')) = 1
        \<and> map event_sig (log_lines v') = [(Some (JStr ''session_created''), Some (JStr ''a''))]
   | (v', Inl err) \<Rightarrow> False"
proof -
  have c: "counter empty_volume ''total_sessions'' = Some (JInt 0)"
    by (simp add: counter_def load_stats_def empty_volume_def file_exists_def dict_get_def)
  have f: "\<not> file_exists (sessions_dir empty_volume) (session_path ''a'')"
    by (simp add: empty_volume_def file_exists_def)
  have g: "glob_json (sessions_dir empty_volume) = []"
    by (simp add: empty_volume_def glob_json_def)
  have l: "log_lines empty_volume = []"
    by (simp add: empty_volume_def log_lines_def)
  show ?thesis
    using create_session_effect [OF c, where pstr = "\<lambda>x. []"
        and e = "\<lparr>container = ''c'', log_ts = 0, log_time = ''t''\<rparr>" and now = "''now''"
        and b = "[(''name'', JStr ''alpha'')]" and sid = "''a''"] f g l
    by (auto split: prod.splits sum.splits)
qed

text \<open>
  A draw that names an existing record: the session returned carries an identifier that
  a stored session already has, and the stored session is replaced by it.
\<close>

theorem create_session_colliding_draw:
  "get_session ''6f1c2a9e-3b7d-4c58-9e21-0a4d5b6c7e8f''
      \<lparr>data_dir = [],
       sessions_dir = [(''6f1c2a9e-3b7d-4c58-9e21-0a4d5b6c7e8f.json'',
         Doc (JObj [(''id'', JStr ''6f1c2a9e-3b7d-4c58-9e21-0a4d5b6c7e8f''),
                    (''name'', JStr ''first''), (''data'', JObj []),
                    (''created_at'', JStr ''t0''), (''last_active'', JStr ''t0''),
                    (''access_count'', JInt 3)]))],
       events_file = None\<rparr>
     = Inr (JObj [(''id'', JStr ''6f1c2a9e-3b7d-4c58-9e21-0a4d5b6c7e8f''),
                    (''name'', JStr ''first''), (''data'', JObj []),
                    (''created_at'', JStr ''t0''), (''last_active'', JStr ''t0''),
                    (''access_count'', JInt 3)])
   \<and> snd (create_session (\<lambda>x. []) \<lparr>container = ''c'', log_ts = 0, log_time = ''t''\<rparr>
        ''6f1c2a9e-3b7d-4c58-9e21-0a4d5b6c7e8f'' ''t1'' (JObj [(''name'', JStr ''second'')])
        \<lparr>data_dir = [],
         sessions_dir = [(''6f1c2a9e-3b7d-4c58-9e21-0a4d5b6c7e8f.json'',
           Doc (JObj [(''id'', JStr ''6f1c2a9e-3b7d-4c58-9e21-0a4d5b6c7e8f''),
                      (''name'', JStr ''first''), (''data'', JObj []),
                      (''created_at'', JStr ''t0''), (''last_active'', JStr ''t0''),
                      (''access_count'', JInt 3)]))],
         events_file = None\<rparr>)
     = Inr (JObj [(''id'', JStr ''6f1c2a9e-3b7d-4c58-9e21-0a4d5b6c7e8f''),
                  (''name'', JStr ''second''), (''data'', JObj []),
                  (''created_at'', JStr ''t1''), (''last_active'', JStr ''t1''),
                  (''access_count'', JInt 0)])
   \<and> get_session ''6f1c2a9e-3b7d-4c58-9e21-0a4d5b6c7e8f''
       (fst (create_session (\<lambda>x. []) \<lparr>container = ''c'', log_ts = 0, log_time = ''t''\<rparr>
        ''6f1c2a9e-3b7d-4c58-9e21-0a4d5b6c7e8f'' ''t1'' (JObj [(''name'', JStr ''second'')])
        \<lparr>data_dir = [],
         sessions_dir = [(''6f1c2a9e-3b7d-4c58-9e21-0a4d5b6c7e8f.json'',
           Doc (JObj [(''id'', JStr ''6f1c2a9e-3b7d-4c58-9e21-0a4d5b6c7e8f''),
                      (''name'', JStr ''first''), (''data'', JObj []),
                      (''created_at'', JStr ''t0''), (''last_active'', JStr ''t0''),
                      (''access_count'', JInt 3)]))],
         events_file = None\<rparr>))
     = Inr (JObj [(''id'', JStr ''6f1c2a9e-3b7d-4c58-9e21-0a4d5b6c7e8f''),
                  (''name'', JStr ''second''), (''data'', JObj []),
                  (''created_at'', JStr ''t1''), (''last_active'', JStr ''t1''),
                  (''access_count'', JInt 0)])
   \<and> set (glob_json (sessions_dir
       (fst (create_session (\<lambda>x. []) \<lparr>container = ''c'', log_ts = 0, log_time = ''t''\<rparr>
        ''6f1c2a9e-3b7d-4c58-9e21-0a4d5b6c7e8f'' ''t1'' (JObj [(''name'', JStr ''second'')])
        \<lparr>data_dir = [],
         sessions_dir = [(''6f1c2a9e-3b7d-4c58-9e21-0a4d5b6c7e8f.json'',
           Doc (JObj [(''id'', JStr ''6f1c2a9e-3b7d-4c58-9e21-0a4d5b6c7e8f''),
                      (''name'', JStr ''first''), (''data'', JObj []),
                      (''created_at'', JStr ''t0''), (''last_active'', JStr ''t0''),
                      (''access_count'', JInt 3)]))],
         events_file = None\<rparr>))))
     = {''6f1c2a9e-3b7d-4c58-9e21-0a4d5b6c7e8f.json''}"
proof -
  let ?u = "''6f1c2a9e-3b7d-4c58-9e21-0a4d5b6c7e8f''"
  let ?old = "JObj [(''id'', JStr ?u), (''name'', JStr ''first''), (''data'', JObj []),
                    (''created_at'', JStr ''t0''), (''last_active'', JStr ''t0''),
                    (''access_count'', JInt 3)]"
  let ?v = "\<lparr>data_dir = [], sessions_dir = [(?u @ ''.json'', Doc ?old)], events_file = None\<rparr>"
  let ?e = "\<lparr>container = ''c'', log_ts = 0, log_time = ''t''\<rparr>"
  have b: "(if py_truthy (JObj [(''name'', JStr ''second'')]) then JObj [(''name'', JStr ''second'')]
            else JObj []) = JObj [(''name'', JStr ''second'')]" by simp
  have st: "load_stats ?v = Inr (JObj [(''startup_count'', JInt 0), (''crash_count'', JInt 0),
                      (''total_sessions'', JInt 0), (''total_requests'', JInt 0)])"
    by (simp add: load_stats_def file_exists_def)
  have add: "py_add1 (case dict_get [(''startup_count'', JInt 0), (''crash_count'', JInt 0),
                      (''total_sessions'', JInt 0), (''total_requests'', JInt 0)] ''total_sessions'' of
                 None \<Rightarrow> JInt 0 | Some x \<Rightarrow> x) = Inr (JInt 1)"
    by (simp add: dict_get_def)
  have g: "set (glob_json (sessions_dir ?v)) = {?u @ ''.json''}"
    by (auto simp: set_glob_json endswith_def)
  have old: "get_session ?u ?v = Inr ?old"
    by (simp add: get_session_def load_session_def session_path_def file_exists_def read_json_def)
  have new: "new_session ?u ''t1'' [(''name'', JStr ''second'')] =
      [(''id'', JStr ?u), (''name'', JStr ''second''), (''data'', JObj []),
       (''created_at'', JStr ''t1''), (''last_active'', JStr ''t1''), (''access_count'', JInt 0)]"
    by (simp add: new_session_def dict_get_def)
  note c = create_session_ok [OF b st add, where pstr = "\<lambda>x. []" and e = ?e and sid = ?u
      and now = "''t1''"]
  have r: "snd (create_session (\<lambda>x. []) ?e ?u ''t1'' (JObj [(''name'', JStr ''second'')]) ?v) =
      Inr (JObj [(''id'', JStr ?u), (''name'', JStr ''second''), (''data'', JObj []),
       (''created_at'', JStr ''t1''), (''last_active'', JStr ''t1''), (''access_count'', JInt 0)])"
    unfolding c new by simp
  have sd: "sessions_dir (fst (create_session (\<lambda>x. []) ?e ?u ''t1''
          (JObj [(''name'', JStr ''second'')]) ?v)) =
      committed (session_path ?u) (JObj (new_session ?u ''t1'' [(''name'', JStr ''second'')]))
        (sessions_dir ?v)"
    unfolding c by simp
  have "load_session ?u (fst (create_session (\<lambda>x. []) ?e ?u ''t1''
          (JObj [(''name'', JStr ''second'')]) ?v)) =
      load_session ?u (?v\<lparr>sessions_dir := committed (session_path ?u)
          (JObj (new_session ?u ''t1'' [(''name'', JStr ''second'')])) (sessions_dir ?v)\<rparr>)"
    by (rule load_session_cong) (simp only: sd volume.simps)
  then have gs: "get_session ?u (fst (create_session (\<lambda>x. []) ?e ?u ''t1'' (JObj [(''name'', JStr ''second'')]) ?v)) =
      Inr (JObj [(''id'', JStr ?u), (''name'', JStr ''second''), (''data'', JObj []),
       (''created_at'', JStr ''t1''), (''last_active'', JStr ''t1''), (''access_count'', JInt 0)])"
    unfolding get_session_def load_session_committed new by simp
  have "set (glob_json (sessions_dir (fst (create_session (\<lambda>x. []) ?e ?u ''t1''
          (JObj [(''name'', JStr ''second'')]) ?v)))) =
      insert (session_path ?u) (set (glob_json (sessions_dir ?v)))"
    unfolding sd by (rule glob_committed_session)
  then have gl: "set (glob_json (sessions_dir (fst (create_session (\<lambda>x. []) ?e ?u ''t1''
          (JObj [(''name'', JStr ''second'')]) ?v)))) = {?u @ ''.json''}"
    unfolding g by (simp add: session_path_def)
  show ?thesis using old r gs gl by simp
qed

lemma update_fields_obj:
  assumes "dict_get sess ''access_count'' = Some (JInt n)"
  shows "update_fields now (JObj b) (JObj sess) =
     Inr (JObj (dict_set (dict_set
        (case dict_get b ''data'' of
           None \<Rightarrow> (case dict_get b ''name'' of None \<Rightarrow> sess | Some x \<Rightarrow> dict_set sess ''name'' x)
         | Some y \<Rightarrow> dict_set (case dict_get b ''name'' of None \<Rightarrow> sess | Some x \<Rightarrow> dict_set sess ''name'' x) ''data'' y)
        ''last_active'' (JStr now)) ''access_count'' (JInt (n + 1))))"
proof -
  have b: "(if py_truthy (JObj b) then JObj b else JObj []) = JObj b" by simp
  show ?thesis
    unfolding update_fields_def Let_def b
    using assms by (simp add: dict_get_set split: option.splits)
qed

text \<open>
  C4. For a stored session whose \<open>id\<close> is the identifier of its file and whose
  \<open>access_count\<close> is the integer \<open>n\<close>, \<open>update_session\<close> with a body that is a
  dict returns and stores a session in which \<open>name\<close> and \<open>data\<close> are those of the body
  where the body has the key and those of the stored session where it has not,
  \<open>created_at\<close> and \<open>id\<close> are unchanged, \<open>last_active\<close> is the instant of the
  update and \<open>access_count\<close> is \<open>n + 1\<close>.
\<close>

theorem update_session_frame:
  assumes "load_session sid v = Inr (JObj sess)"
    and "dict_get sess ''id'' = Some (JStr sid)"
    and "dict_get sess ''access_count'' = Some (JInt n)"
  shows "case update_session pstr e now sid (JObj b) v of
           (v', Inr s') \<Rightarrow>
             get_session sid v' = Inr s'
             \<and> py_getitem s' ''name'' =
                 (case dict_get b ''name'' of None \<Rightarrow> py_getitem (JObj sess) ''name'' | Some x \<Rightarrow> Inr x)
             \<and> py_getitem s' ''data'' =
                 (case dict_get b ''data'' of None \<Rightarrow> py_getitem (JObj sess) ''data'' | Some x \<Rightarrow> Inr x)
             \<and> py_getitem s' ''created_at'' = py_getitem (JObj sess) ''created_at''
             \<and> py_getitem s' ''id'' = Inr (JStr sid)
             \<and> py_getitem s' ''last_active'' = Inr (JStr now)
             \<and> py_getitem s' ''access_count'' = Inr (JInt (n + 1))
         | (v', Inl err) \<Rightarrow> False"
proof -
  define sess' where "sess' = dict_set (dict_set
        (case dict_get b ''data'' of
           None \<Rightarrow> (case dict_get b ''name'' of None \<Rightarrow> sess | Some x \<Rightarrow> dict_set sess ''name'' x)
         | Some y \<Rightarrow> dict_set (case dict_get b ''name'' of None \<Rightarrow> sess | Some x \<Rightarrow> dict_set sess ''name'' x) ''data'' y)
        ''last_active'' (JStr now)) ''access_count'' (JInt (n + 1))"
  have uf: "update_fields now (JObj b) (JObj sess) = Inr (JObj sess')"
    unfolding sess'_def by (rule update_fields_obj [OF assms(3)])
  have get: "\<And>k. dict_get sess' k =
      (if k = ''access_count'' then Some (JInt (n + 1))
       else if k = ''last_active'' then Some (JStr now)
       else if k = ''data'' then (case dict_get b ''data'' of None \<Rightarrow> dict_get sess ''data'' | Some y \<Rightarrow> Some y)
       else if k = ''name'' then (case dict_get b ''name'' of None \<Rightarrow> dict_get sess ''name'' | Some x \<Rightarrow> Some x)
       else dict_get sess k)"
    unfolding sess'_def by (simp add: dict_get_set split: option.splits)
  have id: "dict_get sess' ''id'' = Some (JStr sid)"
    using assms(2) by (simp add: get)
  have res: "update_session pstr e now sid (JObj b) v =
      (log_event e ''session_updated'' [(''session_id'', JStr sid)]
         (v\<lparr>sessions_dir := committed (session_path sid) (JObj sess') (sessions_dir v)\<rparr>),
       Inr (JObj sess'))"
    using assms(1) uf save_session_eq [OF id, of pstr v] by (simp add: update_session_def)
  show ?thesis
    unfolding res using assms(2) by (simp add: get_session_committed get split: option.splits)
qed

theorem update_session_frame_witness:
  "case update_session (\<lambda>x. []) \<lparr>container = ''c'', log_ts = 0, log_time = ''t''\<rparr> ''later'' ''a''
          (JObj [(''name'', JStr ''beta'')])
          \<lparr>data_dir = [],
           sessions_dir = [(''a.json'', Doc (JObj [(''id'', JStr ''a''), (''name'', JStr ''alpha''),
              (''data'', JInt 7), (''created_at'', JStr ''then''), (''last_active'', JStr ''then''),
              (''access_count'', JInt 0)]))],
           events_file = None\<rparr> of
     (v', Inr s') \<Rightarrow>
        py_getitem s' ''name'' = Inr (JStr ''beta'') \<and> py_getitem s' ''data'' = Inr (JInt 7)
        \<and> py_getitem s' ''created_at'' = Inr (JStr ''then'')
        \<and> py_getitem s' ''last_active'' = Inr (JStr ''later'')
        \<and> py_getitem s' ''access_count'' = Inr (JInt 1) \<and> get_session ''a'' v' = Inr s'
   | (v', Inl err) \<Rightarrow> False"
proof -
  let ?sess = "[(''id'', JStr ''a''), (''name'', JStr ''alpha''),
              (''data'', JInt 7), (''created_at'', JStr ''then''), (''last_active'', JStr ''then''),
              (''access_count'', JInt 0)]"
  let ?v = "\<lparr>data_dir = [], sessions_dir = [(''a.json'', Doc (JObj ?sess))], events_file = None\<rparr>"
  have l: "load_session ''a'' ?v = Inr (JObj ?sess)"
    by (simp add: load_session_def session_path_def file_exists_def read_json_def)
  have i: "dict_get ?sess ''id'' = Some (JStr ''a'')" by (simp add: dict_get_def)
  have a: "dict_get ?sess ''access_count'' = Some (JInt 0)" by (simp add: dict_get_def)
  show ?thesis
    using update_session_frame [OF l i a, where pstr = "\<lambda>x. []"
        and e = "\<lparr>container = ''c'', log_ts = 0, log_time = ''t''\<rparr>" and now = "''later''"
        and b = "[(''name'', JStr ''beta'')]"]
    by (auto simp: dict_get_def split: prod.splits sum.splits)
qed

subsection \<open>What each operation does to the session directory and the log\<close>

lemma create_session_disk:
  assumes "(if py_truthy body then body else JObj []) = JObj b"
  shows "(fst (create_session pstr e sid now body v))\<lparr>data_dir := data_dir v\<rparr> =
     log_event e ''session_created''
        [(''session_id'', JStr sid),
         (''name'', case dict_get b ''name'' of None \<Rightarrow> JStr ''unnamed'' | Some x \<Rightarrow> x)]
        (v\<lparr>sessions_dir := committed (session_path sid) (JObj (new_session sid now b)) (sessions_dir v)\<rparr>)"
proof -
  have id: "dict_get (new_session sid now b) ''id'' = Some (JStr sid)"
    by (simp add: new_session_def dict_get_def)
  have le: "\<And>kind extra w. (log_event e kind extra w)\<lparr>data_dir := data_dir w\<rparr> = log_event e kind extra w"
    by (simp add: log_event_def Let_def)
  show ?thesis
    using assms save_session_eq [OF id, of pstr v] le
    by (auto simp: create_session_def Let_def new_session_def [symmetric] save_stats_eq
        split: sum.splits)
qed

lemma create_session_nondict:
  assumes "\<forall>b. (if py_truthy body then body else JObj []) \<noteq> JObj b"
  shows "fst (create_session pstr e sid now body v) = v"
proof -
  have "py_get (if py_truthy body then body else JObj []) ''name'' (JStr ''unnamed'') = Inl AttributeError"
    using assms by (cases "if py_truthy body then body else JObj []") auto
  then show ?thesis by (simp add: create_session_def Let_def)
qed


lemma py_setitem_Inr:
  "py_setitem s k y = Inr s' \<Longrightarrow> \<exists>d. s = JObj d \<and> s' = JObj (dict_set d k y)"
  by (cases s) auto

lemma update_fields_id:
  assumes "update_fields now body sess0 = Inr s"
  shows "\<exists>d0 d'. sess0 = JObj d0 \<and> s = JObj d' \<and> dict_get d' ''id'' = dict_get d0 ''id''"
  using assms
  by (auto simp: update_fields_def Let_def dict_get_set split: sum.splits if_splits
      dest!: py_setitem_Inr)

lemma update_session_cases:
  obtains (unchanged) "fst (update_session pstr e now sid body v) = v"
  | (written) d0 d' i where "load_session sid v = Inr (JObj d0)"
      and "dict_get d0 ''id'' = Some i" and "dict_get d' ''id'' = Some i"
      and "update_session pstr e now sid body v =
            (log_event e ''session_updated'' [(''session_id'', JStr sid)]
               (v\<lparr>sessions_dir := committed (session_path (fstring pstr i)) (JObj d') (sessions_dir v)\<rparr>),
             Inr (JObj d'))"
proof (cases "load_session sid v")
  case (Inl err)
  then show ?thesis using unchanged by (simp add: update_session_def)
next
  case l: (Inr sess0)
  show ?thesis
  proof (cases "update_fields now body sess0")
    case (Inl err)
    then show ?thesis using unchanged l by (simp add: update_session_def)
  next
    case (Inr s)
    from update_fields_id [OF Inr] obtain d0 d' where
      d: "sess0 = JObj d0" "s = JObj d'" "dict_get d' ''id'' = dict_get d0 ''id''" by blast
    show ?thesis
    proof (cases "dict_get d' ''id''")
      case None
      then show ?thesis using unchanged l Inr d
        by (simp add: update_session_def save_session_def save_session_upto_def)
    next
      case (Some i)
      then show ?thesis
        using written [of d0 i d'] l Inr d save_session_eq [OF Some, of pstr v]
        by (simp add: update_session_def)
    qed
  qed
qed

lemma delete_session_cases:
  obtains (unchanged) "fst (delete_session e sid v) = v"
  | (removed) "file_exists (sessions_dir v) (session_path sid)"
      and "delete_session e sid v =
            (log_event e ''session_deleted'' [(''session_id'', JStr sid)]
               (v\<lparr>sessions_dir := AList.delete (session_path sid) (sessions_dir v)\<rparr>),
             Inr (JObj [(''status'', JStr ''deleted''), (''id'', JStr sid)]))"
proof (cases "load_session sid v")
  case (Inl err)
  then show ?thesis using unchanged by (simp add: delete_session_def)
next
  case (Inr j)
  then have "file_exists (sessions_dir v) (session_path sid)"
    by (auto simp: load_session_def Let_def split: if_splits)
  then show ?thesis using removed Inr by (simp add: delete_session_def unlink_def)
qed

lemma replay_snoc: "replay (ls @ [l]) = replay_step l (replay ls)"
  by (simp add: replay_def)

lemma replay_step_startup:
  "replay_step (Entry (JObj (dict_merge [(''ts'', t), (''time'', u), (''event'', JStr ''startup''),
       (''container'', c)] [(''startup_count'', a), (''crash_count'', b)]))) ids = ids"
  by (simp add: replay_step_def dict_merge_def dict_set_def dict_get_def)

lemma replay_step_crash:
  "replay_step (Entry (JObj (dict_merge [(''ts'', t), (''time'', u), (''event'', JStr ''crash_triggered''),
       (''container'', c)] [(''crash_count'', a)]))) ids = ids"
  by (simp add: replay_step_def dict_merge_def dict_set_def dict_get_def)

lemma replay_step_updated:
  "replay_step (Entry (JObj (dict_merge [(''ts'', t), (''time'', u), (''event'', JStr ''session_updated''),
       (''container'', c)] [(''session_id'', JStr sid)]))) ids = ids"
  by (simp add: replay_step_def dict_merge_def dict_set_def dict_get_def)

lemma replay_step_deleted:
  "replay_step (Entry (JObj (dict_merge [(''ts'', t), (''time'', u), (''event'', JStr ''session_deleted''),
       (''container'', c)] [(''session_id'', JStr sid)]))) ids = removeAll sid ids"
  by (simp add: replay_step_def dict_merge_def dict_set_def dict_get_def)

lemma replay_step_created:
  "replay_step (Entry (JObj (dict_merge [(''ts'', t), (''time'', u), (''event'', JStr ''session_created''),
       (''container'', c)] [(''session_id'', JStr sid), (''name'', nm)]))) ids = List.insert sid ids"
  by (simp add: replay_step_def dict_merge_def dict_set_def dict_get_def)

lemma bootstrap_disk:
  "sessions_dir (fst (bootstrap e v)) = sessions_dir v
   \<and> replay (log_lines (fst (bootstrap e v))) = replay (log_lines v)"
  by (auto simp: bootstrap_def save_stats_eq log_lines_log_event replay_snoc replay_step_startup
      split: sum.splits)

lemma crash_disk:
  "sessions_dir (fst (crash e v)) = sessions_dir v
   \<and> replay (log_lines (fst (crash e v))) = replay (log_lines v)"
  by (auto simp: crash_def save_stats_eq log_lines_log_event replay_snoc replay_step_crash
      split: sum.splits)


lemma id_invariant_iff: "id_invariant d \<longleftrightarrow> (\<forall>n \<in> set (glob_json d). id_matches d n)"
  by (simp add: id_invariant_def list_all_iff)

lemma id_invariant_delete:
  assumes "id_invariant d"
  shows "id_invariant (AList.delete p d)"
  using assms by (auto simp: id_invariant_iff set_glob_delete id_matches_def delete_conv')

lemma id_invariant_committed:
  assumes "id_invariant d" and "dict_get d' ''id'' = Some (JStr sid)"
  shows "id_invariant (committed (session_path sid) (JObj d') d)"
proof -
  have "id_matches (committed (session_path sid) (JObj d') d) n"
    if n: "n \<in> insert (session_path sid) (set (glob_json d))" for n
  proof (cases "n = session_path sid")
    case True
    then show ?thesis
      using assms(2) by (simp add: id_matches_def map_of_committed [OF session_tmp_neq])
  next
    case False
    with n have g: "n \<in> set (glob_json d)" by simp
    then have "endswith n ''.json''" by (simp add: set_glob_json)
    then have "n \<noteq> with_suffix (session_path sid) ''.tmp''"
      using session_tmp_not_json [of sid] by auto
    then have "map_of (committed (session_path sid) (JObj d') d) n = map_of d n"
      using False by (simp add: map_of_committed [OF session_tmp_neq])
    then show ?thesis
      using assms(1) g by (simp add: id_invariant_iff id_matches_def)
  qed
  then show ?thesis by (simp add: id_invariant_iff glob_committed_session)
qed

lemma loaded_id:
  assumes "id_invariant (sessions_dir v)" and "load_session sid v = Inr (JObj d0)"
  shows "dict_get d0 ''id'' = Some (JStr sid)"
proof -
  from assms(2) have m: "map_of (sessions_dir v) (session_path sid) = Some (Doc (JObj d0))"
    by (auto simp: load_session_def Let_def read_json_def split: if_splits option.splits fdata.splits)
  then have "session_path sid \<in> fst ` set (sessions_dir v)"
    by (metis domI dom_map_of_conv_image_fst)
  then have "session_path sid \<in> set (glob_json (sessions_dir v))"
    by (simp add: set_glob_json session_path_json)
  with assms(1) have "id_matches (sessions_dir v) (session_path sid)"
    by (simp add: id_invariant_iff)
  with m show ?thesis
    by (auto simp: id_matches_def session_path_inj split: option.splits json.splits)
qed

lemma loaded_in_glob:
  assumes "file_exists (sessions_dir v) (session_path sid)"
  shows "session_path sid \<in> set (glob_json (sessions_dir v))"
proof -
  from assms have "session_path sid \<in> dom (map_of (sessions_dir v))"
    by (auto simp: file_exists_def)
  then show ?thesis
    by (simp add: set_glob_json session_path_json dom_map_of_conv_image_fst)
qed

lemma consistent_cong:
  assumes "sessions_dir v' = sessions_dir v" and "replay (log_lines v') = replay (log_lines v)"
  shows "consistent v' = consistent v"
  using assms by (simp add: consistent_def)

lemma image_session_path_remove:
  "session_path ` (S - {sid}) = session_path ` S - {session_path sid}"
  by (auto simp: session_path_inj)

lemma exec_invariant:
  assumes "id_invariant (sessions_dir v)"
  shows "id_invariant (sessions_dir (exec pstr op v))
       \<and> (consistent v \<longrightarrow> consistent (exec pstr op v))"
proof (cases op)
  case (Start e)
  then show ?thesis using assms bootstrap_disk [where e = e and v = v] by (simp add: consistent_def)
next
  case (Crash e)
  then show ?thesis using assms crash_disk [where e = e and v = v] by (simp add: consistent_def)
next
  case (Create e sid now body)
  show ?thesis
  proof (cases "\<exists>b. (if py_truthy body then body else JObj []) = JObj b")
    case False
    then show ?thesis using assms Create by (simp add: create_session_nondict)
  next
    case True
    then obtain b where b: "(if py_truthy body then body else JObj []) = JObj b" by blast
    let ?v' = "fst (create_session pstr e sid now body v)"
    note eq = create_session_disk [OF b, where pstr = pstr and e = e and sid = sid and now = now and v = v]
    have sd: "sessions_dir ?v' =
        committed (session_path sid) (JObj (new_session sid now b)) (sessions_dir v)"
      using arg_cong [OF eq, of sessions_dir] by simp
    have ll: "replay (log_lines ?v') = List.insert sid (replay (log_lines v))"
      using arg_cong [OF eq, of log_lines]
      by (simp add: log_lines_log_event replay_snoc replay_step_created)
    have id: "dict_get (new_session sid now b) ''id'' = Some (JStr sid)"
      by (simp add: new_session_def dict_get_def)
    show ?thesis
      using assms Create id_invariant_committed [OF assms id]
      by (simp add: sd ll consistent_def glob_committed_session)
  qed
next
  case (Update e now sid body)
  show ?thesis
  proof (cases rule: update_session_cases [where pstr = pstr and e = e and now = now and sid = sid and body = body and v = v])
    case unchanged
    then show ?thesis using assms Update by simp
  next
    case (written d0 d' i)
    from loaded_id [OF assms written(1)] written(2,3)
    have i: "i = JStr sid" and id: "dict_get d' ''id'' = Some (JStr sid)" by simp_all
    have ex: "file_exists (sessions_dir v) (session_path sid)"
      using written(1) by (auto simp: load_session_def Let_def split: if_splits)
    have "insert (session_path sid) (set (glob_json (sessions_dir v))) = set (glob_json (sessions_dir v))"
      using loaded_in_glob [OF ex] by auto
    then show ?thesis
      using assms Update id_invariant_committed [OF assms id]
      by (auto simp: written(4) i consistent_def glob_committed_session log_lines_log_event
          replay_snoc replay_step_updated)
  qed
next
  case (Delete e sid)
  show ?thesis
  proof (cases rule: delete_session_cases [where e = e and sid = sid and v = v])
    case unchanged
    then show ?thesis using assms Delete by simp
  next
    case removed
    then show ?thesis
      using assms Delete id_invariant_delete [OF assms]
      by (simp add: consistent_def set_glob_delete log_lines_log_event replay_snoc
          replay_step_deleted image_session_path_remove)
  qed
qed

lemma run_invariant:
  assumes "id_invariant (sessions_dir v)" and "consistent v"
  shows "id_invariant (sessions_dir (run pstr ops v)) \<and> consistent (run pstr ops v)"
  using assms
proof (induction ops arbitrary: v)
  case Nil
  then show ?case by (simp add: run_def)
next
  case (Cons op ops)
  have "run pstr (op # ops) v = run pstr ops (exec pstr op v)" by (simp add: run_def)
  then show ?case
    using Cons.IH Cons.prems(2) exec_invariant [OF Cons.prems(1), where pstr = pstr and op = op]
    by simp
qed

lemma empty_volume_invariant:
  "id_invariant (sessions_dir empty_volume)" "consistent empty_volume"
  by (simp_all add: empty_volume_def id_invariant_def consistent_def glob_json_def
      log_lines_def replay_def)

subsection \<open>The disk and the replay of the log\<close>

lemma replay_step_mem:
  "sid \<in> set (replay_step l ids) \<longleftrightarrow>
     event_sig l = (Some (JStr ''session_created''), Some (JStr sid))
     \<or> (sid \<in> set ids \<and> event_sig l \<noteq> (Some (JStr ''session_deleted''), Some (JStr sid)))"
  by (auto simp: replay_step_def event_sig_def split: line.splits json.splits option.splits)

lemma replay_spec:
  "sid \<in> set (replay ls) \<longleftrightarrow>
     (\<exists>pre l post. ls = pre @ l # post
        \<and> event_sig l = (Some (JStr ''session_created''), Some (JStr sid))
        \<and> (\<forall>l' \<in> set post. event_sig l' \<noteq> (Some (JStr ''session_deleted''), Some (JStr sid))))"
  (is "?L ls \<longleftrightarrow> ?R ls")
proof (induction ls rule: rev_induct)
  case Nil
  then show ?case by (simp add: replay_def)
next
  case (snoc x xs)
  let ?C = "(Some (JStr ''session_created''), Some (JStr sid))"
  let ?D = "(Some (JStr ''session_deleted''), Some (JStr sid))"
  have step: "?L (xs @ [x]) \<longleftrightarrow> event_sig x = ?C \<or> (?L xs \<and> event_sig x \<noteq> ?D)"
    by (simp add: replay_snoc replay_step_mem)
  show ?case
  proof
    assume "?L (xs @ [x])"
    with step consider "event_sig x = ?C" | "?L xs" "event_sig x \<noteq> ?D" by blast
    then show "?R (xs @ [x])"
    proof cases
      case 1
      then have "xs @ [x] = xs @ x # [] \<and> event_sig x = ?C \<and> (\<forall>l' \<in> set []. event_sig l' \<noteq> ?D)"
        by simp
      then show ?thesis by blast
    next
      case 2
      with snoc.IH obtain pre l post where
        p: "xs = pre @ l # post" "event_sig l = ?C" "\<forall>l' \<in> set post. event_sig l' \<noteq> ?D"
        by blast
      with 2(2) have "xs @ [x] = pre @ l # (post @ [x]) \<and> event_sig l = ?C
          \<and> (\<forall>l' \<in> set (post @ [x]). event_sig l' \<noteq> ?D)"
        by simp
      then show ?thesis by blast
    qed
  next
    assume "?R (xs @ [x])"
    then obtain pre l post where
      p: "xs @ [x] = pre @ l # post" "event_sig l = ?C" "\<forall>l' \<in> set post. event_sig l' \<noteq> ?D"
      by blast
    show "?L (xs @ [x])"
    proof (cases post rule: rev_cases)
      case Nil
      with p(1) have "l = x" by simp
      with p(2) step show ?thesis by simp
    next
      case (snoc post' y)
      with p(1) have xs: "xs = pre @ l # post'" and y: "y = x" by simp_all
      from p(3) snoc y have nd: "event_sig x \<noteq> ?D" and "\<forall>l' \<in> set post'. event_sig l' \<noteq> ?D"
        by simp_all
      with xs p(2) have "?R xs" by blast
      with snoc.IH nd step show ?thesis by simp
    qed
  qed
qed

text \<open>
  C3. From the empty volume, after any sequence of operations (create, update, delete,
  starts and crashes in any order, each run to its end), the session files on disk are
  the files of the identifiers that the replay of the event log gives, and the replay
  gives the identifiers that have a \<open>session_created\<close> line with no later
  \<open>session_deleted\<close> line. The same holds from any volume on which the stored
  identifiers match the file names and the disk agrees with the log.
\<close>

theorem disk_is_replay_of_log:
  assumes "id_invariant (sessions_dir v)" and "consistent v"
  shows "set (glob_json (sessions_dir (run pstr ops v))) =
           session_path ` set (replay (log_lines (run pstr ops v)))
       \<and> (\<forall>sid. sid \<in> set (replay (log_lines (run pstr ops v))) \<longleftrightarrow>
             (\<exists>pre l post. log_lines (run pstr ops v) = pre @ l # post
                \<and> event_sig l = (Some (JStr ''session_created''), Some (JStr sid))
                \<and> (\<forall>l' \<in> set post.
                      event_sig l' \<noteq> (Some (JStr ''session_deleted''), Some (JStr sid)))))"
  using run_invariant [OF assms, of pstr ops] replay_spec [of _ "log_lines (run pstr ops v)"]
  by (simp add: consistent_def)

theorem disk_is_replay_of_log_witness:
  "id_invariant (sessions_dir empty_volume) \<and> consistent empty_volume
   \<and> set (glob_json (sessions_dir (run (\<lambda>x. [])
        [Start \<lparr>container = ''c1'', log_ts = 0, log_time = ''t''\<rparr>,
         Create \<lparr>container = ''c1'', log_ts = 0, log_time = ''t''\<rparr> ''a'' ''now'' JNull,
         Crash \<lparr>container = ''c1'', log_ts = 0, log_time = ''t''\<rparr>,
         Start \<lparr>container = ''c2'', log_ts = 0, log_time = ''t''\<rparr>,
         Delete \<lparr>container = ''c2'', log_ts = 0, log_time = ''t''\<rparr> ''a''] empty_volume))) =
       session_path ` set (replay (log_lines (run (\<lambda>x. [])
        [Start \<lparr>container = ''c1'', log_ts = 0, log_time = ''t''\<rparr>,
         Create \<lparr>container = ''c1'', log_ts = 0, log_time = ''t''\<rparr> ''a'' ''now'' JNull,
         Crash \<lparr>container = ''c1'', log_ts = 0, log_time = ''t''\<rparr>,
         Start \<lparr>container = ''c2'', log_ts = 0, log_time = ''t''\<rparr>,
         Delete \<lparr>container = ''c2'', log_ts = 0, log_time = ''t''\<rparr> ''a''] empty_volume)))"
  using empty_volume_invariant
    disk_is_replay_of_log [OF empty_volume_invariant, of "\<lambda>x. []"
        "[Start \<lparr>container = ''c1'', log_ts = 0, log_time = ''t''\<rparr>,
         Create \<lparr>container = ''c1'', log_ts = 0, log_time = ''t''\<rparr> ''a'' ''now'' JNull,
         Crash \<lparr>container = ''c1'', log_ts = 0, log_time = ''t''\<rparr>,
         Start \<lparr>container = ''c2'', log_ts = 0, log_time = ''t''\<rparr>,
         Delete \<lparr>container = ''c2'', log_ts = 0, log_time = ''t''\<rparr> ''a'']"]
  by simp

subsection \<open>Stored identifiers and the listing\<close>

lemma glob_json_eqI:
  assumes "set (glob_json d') = set (glob_json d)"
  shows "glob_json d' = glob_json d"
  using assms by (intro sorted_distinct_set_unique) (simp_all add: glob_json_def)

lemma read_all_cong:
  assumes "\<forall>n \<in> set ns. map_of d' n = map_of d n"
  shows "read_all d' ns = read_all d ns"
  using assms by (induction ns) (simp_all add: read_json_def cong: sum.case_cong)

lemma read_all_docs:
  assumes "\<forall>n \<in> set ns. \<exists>j. map_of d n = Some (Doc j)"
  shows "read_all d ns = Inr (map (doc_at d) ns)"
  using assms by (induction ns) (auto simp: read_json_def doc_at_def)

lemma id_matches_doc: "id_matches d n \<Longrightarrow> \<exists>j. map_of d n = Some (Doc j)"
  by (auto simp: id_matches_def split: option.splits fdata.splits)

lemma list_sessions_docs:
  assumes "id_invariant (sessions_dir v)"
  shows "list_sessions v = Inr (map (doc_at (sessions_dir v)) (glob_json (sessions_dir v)))"
  unfolding list_sessions_def
  using assms by (intro read_all_docs) (auto simp: id_invariant_iff dest: id_matches_doc)

lemma tmp_not_listed: "with_suffix (session_path sid) ''.tmp'' \<notin> set (glob_json d)"
  using session_tmp_not_json [of sid] by (simp add: set_glob_json)

lemma inflight_map:
  assumes "k < 3" and "n \<noteq> with_suffix p ''.tmp''"
  shows "map_of (fst (run_steps (take k (write_steps p x)) d)) n = map_of d n"
  using assms by (simp add: write_steps_def Let_def take_three update_conv')

lemma set_glob_json_dom: "set (glob_json d) = {n \<in> dom (map_of d). endswith n ''.json''}"
  by (simp add: set_glob_json dom_map_of_conv_image_fst)

lemma inflight_glob:
  assumes "k < 3" and "\<not> endswith (with_suffix p ''.tmp'') ''.json''"
  shows "glob_json (fst (run_steps (take k (write_steps p x)) d)) = glob_json d"
proof (rule glob_json_eqI)
  have "n \<in> dom (map_of (fst (run_steps (take k (write_steps p x)) d))) \<longleftrightarrow> n \<in> dom (map_of d)"
    if "endswith n ''.json''" for n
  proof -
    from that assms(2) have "n \<noteq> with_suffix p ''.tmp''" by auto
    from inflight_map [OF assms(1) this] show ?thesis by (simp add: dom_def)
  qed
  then show "set (glob_json (fst (run_steps (take k (write_steps p x)) d))) = set (glob_json d)"
    by (auto simp: set_glob_json_dom)
qed

lemma inflight_listing:
  assumes "k < 3"
  shows "list_sessions (fst (save_session_upto k pstr sess v)) = list_sessions v
       \<and> (id_invariant (sessions_dir v) \<longrightarrow>
            id_invariant (sessions_dir (fst (save_session_upto k pstr sess v))))"
proof (cases "py_getitem sess ''id''")
  case (Inl err)
  then show ?thesis by (simp add: save_session_upto_def)
next
  case (Inr i)
  let ?p = "session_path (fstring pstr i)"
  let ?d = "fst (run_steps (take k (write_steps ?p sess)) (sessions_dir v))"
  have sd: "sessions_dir (fst (save_session_upto k pstr sess v)) = ?d"
    using Inr by (simp add: save_session_upto_def split: prod.splits option.splits)
  have g: "glob_json ?d = glob_json (sessions_dir v)"
    by (rule inflight_glob [OF assms session_tmp_not_json])
  have m: "map_of ?d n = map_of (sessions_dir v) n" if "n \<in> set (glob_json (sessions_dir v))" for n
  proof -
    from that have "endswith n ''.json''" by (simp add: set_glob_json)
    with session_tmp_not_json [of "fstring pstr i"] have "n \<noteq> with_suffix ?p ''.tmp''" by auto
    from inflight_map [OF assms this] show ?thesis .
  qed
  have "read_all ?d (glob_json (sessions_dir v)) = read_all (sessions_dir v) (glob_json (sessions_dir v))"
    by (rule read_all_cong) (simp add: m)
  moreover have "id_invariant ?d = id_invariant (sessions_dir v)"
    by (auto simp: id_invariant_iff g id_matches_def m)
  ultimately show ?thesis by (simp add: list_sessions_def sd g)
qed

text \<open>
  C10. Every operation keeps the invariant that each committed session file (a name
  matched by \<open>*.json\<close>) holds a dict whose \<open>id\<close> is the name of the file without the
  extension. Under the invariant \<open>list_sessions\<close> returns the documents of exactly the
  committed files, in the order of their names. The temporary file of a write is never
  among the listed names, and while a write is in flight (stopped before its rename) the
  listing and the invariant are what they were before the write.
\<close>

theorem stored_id_invariant_and_listing:
  "(id_invariant (sessions_dir v) \<longrightarrow>
      id_invariant (sessions_dir (exec pstr op v))
      \<and> list_sessions v = Inr (map (doc_at (sessions_dir v)) (glob_json (sessions_dir v))))
   \<and> set (glob_json (sessions_dir v)) = {n \<in> fst ` set (sessions_dir v). endswith n ''.json''}
   \<and> with_suffix (session_path sid) ''.tmp'' \<notin> set (glob_json (sessions_dir v))
   \<and> (k < 3 \<longrightarrow>
        list_sessions (fst (save_session_upto k pstr sess v)) = list_sessions v
        \<and> (id_invariant (sessions_dir v) \<longrightarrow>
             id_invariant (sessions_dir (fst (save_session_upto k pstr sess v)))))"
  using exec_invariant [of v pstr op] list_sessions_docs [of v] tmp_not_listed [of sid "sessions_dir v"]
    inflight_listing [of k pstr sess v]
  by (simp add: set_glob_json)


theorem stored_id_invariant_and_listing_witness:
  "id_invariant [(''a.json'', Doc (JObj [(''id'', JStr ''a'')]))]
   \<and> id_invariant (sessions_dir (exec (\<lambda>x. [])
         (Update \<lparr>container = ''c'', log_ts = 0, log_time = ''t''\<rparr> ''now'' ''a'' JNull)
         \<lparr>data_dir = [], sessions_dir = [(''a.json'', Doc (JObj [(''id'', JStr ''a'')]))],
          events_file = None\<rparr>))
   \<and> list_sessions \<lparr>data_dir = [], sessions_dir = [(''a.json'', Doc (JObj [(''id'', JStr ''a'')]))],
          events_file = None\<rparr> = Inr [JObj [(''id'', JStr ''a'')]]
   \<and> list_sessions (fst (save_session_upto 2 (\<lambda>x. []) (JObj [(''id'', JStr ''b'')])
         \<lparr>data_dir = [], sessions_dir = [(''a.json'', Doc (JObj [(''id'', JStr ''a'')]))],
          events_file = None\<rparr>)) = Inr [JObj [(''id'', JStr ''a'')]]"
proof -
  let ?v = "\<lparr>data_dir = [], sessions_dir = [(''a.json'', Doc (JObj [(''id'', JStr ''a'')]))],
          events_file = None\<rparr>"
  have g: "glob_json [(''a.json'', Doc (JObj [(''id'', JStr ''a'')]))] = [''a.json'']"
    by (simp add: glob_json_def endswith_def)
  have inv: "id_invariant (sessions_dir ?v)"
    by (simp add: id_invariant_def g id_matches_def dict_get_def session_path_def)
  show ?thesis
    using inv stored_id_invariant_and_listing [where v = ?v and pstr = "\<lambda>x. []"
        and op = "Update \<lparr>container = ''c'', log_ts = 0, log_time = ''t''\<rparr> ''now'' ''a'' JNull"
        and k = 2 and sess = "JObj [(''id'', JStr ''b'')]" and sid = "''a''"]
    by (simp add: g doc_at_def)
qed

subsection \<open>The record is written before the event is logged\<close>

lemma log_lines_save_session: "log_lines (fst (save_session_upto k pstr s v)) = log_lines v"
  by (auto simp: save_session_upto_def split: sum.splits prod.splits option.splits)

lemma update_session_InrD:
  assumes "update_session pstr e now sid body v = (v', Inr s')"
  shows "v' = log_event e ''session_updated'' [(''session_id'', JStr sid)] (fst (save_session pstr s' v))"
  using assms by (auto simp: update_session_def split: sum.splits prod.splits)

lemma delete_session_InrD:
  assumes "delete_session e sid v = (v', Inr r)"
  shows "v' = log_event e ''session_deleted'' [(''session_id'', JStr sid)]
           (v\<lparr>sessions_dir := AList.delete (session_path sid) (sessions_dir v)\<rparr>)"
  using assms by (auto simp: delete_session_def unlink_def split: sum.splits if_splits)

lemma appended_log_event:
  "appended w (log_event e kind extra w) =
     [Entry (JObj (dict_merge [(''ts'', JFloat (log_ts e)), (''time'', JStr (log_time e)),
                              (''event'', JStr kind), (''container'', JStr (container e))] extra))]"
  by (simp add: appended_def log_lines_log_event)

lemma update_session_ok:
  assumes "load_session sid v = Inr (JObj sess)"
    and "dict_get sess ''id'' = Some (JStr sid)"
    and "dict_get sess ''access_count'' = Some (JInt n)"
  obtains d' where "update_session pstr e now sid (JObj b) v =
      (log_event e ''session_updated'' [(''session_id'', JStr sid)]
         (v\<lparr>sessions_dir := committed (session_path sid) (JObj d') (sessions_dir v)\<rparr>),
       Inr (JObj d'))"
proof -
  from update_fields_obj [OF assms(3), of now b] obtain d' where
    uf: "update_fields now (JObj b) (JObj sess) = Inr (JObj d')" by blast
  from update_fields_id [OF uf] assms(2) have id: "dict_get d' ''id'' = Some (JStr sid)" by simp
  have "update_session pstr e now sid (JObj b) v =
      (log_event e ''session_updated'' [(''session_id'', JStr sid)]
         (v\<lparr>sessions_dir := committed (session_path sid) (JObj d') (sessions_dir v)\<rparr>),
       Inr (JObj d'))"
    using assms(1) uf save_session_eq [OF id, of pstr v] by (simp add: update_session_def)
  then show ?thesis by (rule that)
qed

lemma create_update_delete_log:
  "log_lines (run pstr [Create e1 sid now1 (JObj b1), Update e2 now2 sid (JObj b2), Delete e3 sid] v) =
     log_lines v @ appended v
       (run pstr [Create e1 sid now1 (JObj b1), Update e2 now2 sid (JObj b2), Delete e3 sid] v)
   \<and> map event_sig (appended v
       (run pstr [Create e1 sid now1 (JObj b1), Update e2 now2 sid (JObj b2), Delete e3 sid] v)) =
           [(Some (JStr ''session_created''), Some (JStr sid)),
            (Some (JStr ''session_updated''), Some (JStr sid)),
            (Some (JStr ''session_deleted''), Some (JStr sid))]"
proof -
  define vf where
    "vf = run pstr [Create e1 sid now1 (JObj b1), Update e2 now2 sid (JObj b2), Delete e3 sid] v"
  let ?ns = "new_session sid now1 b1"
  let ?nm = "case dict_get b1 ''name'' of None \<Rightarrow> JStr ''unnamed'' | Some x \<Rightarrow> x"
  let ?v1 = "fst (create_session pstr e1 sid now1 (JObj b1) v)"
  have b: "(if py_truthy (JObj b1) then JObj b1 else JObj []) = JObj b1" by simp
  note eq = create_session_disk [OF b, where pstr = pstr and e = e1 and sid = sid and now = now1 and v = v]
  have sd1: "sessions_dir ?v1 = committed (session_path sid) (JObj ?ns) (sessions_dir v)"
    using arg_cong [OF eq, of sessions_dir] by simp
  have ll1: "log_lines ?v1 = log_lines v @
      [Entry (JObj (dict_merge [(''ts'', JFloat (log_ts e1)), (''time'', JStr (log_time e1)),
          (''event'', JStr ''session_created''), (''container'', JStr (container e1))]
          [(''session_id'', JStr sid), (''name'', ?nm)]))]"
    using arg_cong [OF eq, of log_lines] by (simp add: log_lines_log_event)
  have "load_session sid ?v1 =
      load_session sid (v\<lparr>sessions_dir := committed (session_path sid) (JObj ?ns) (sessions_dir v)\<rparr>)"
    by (rule load_session_cong) (simp add: sd1)
  then have l1: "load_session sid ?v1 = Inr (JObj ?ns)" by (simp add: load_session_committed)
  have i1: "dict_get ?ns ''id'' = Some (JStr sid)" and a1: "dict_get ?ns ''access_count'' = Some (JInt 0)"
    by (simp_all add: new_session_def dict_get_def)
  from update_session_ok [OF l1 i1 a1, of pstr e2 now2 b2] obtain d' where
    u: "update_session pstr e2 now2 sid (JObj b2) ?v1 =
      (log_event e2 ''session_updated'' [(''session_id'', JStr sid)]
         (?v1\<lparr>sessions_dir := committed (session_path sid) (JObj d') (sessions_dir ?v1)\<rparr>),
       Inr (JObj d'))" by blast
  let ?v2 = "fst (update_session pstr e2 now2 sid (JObj b2) ?v1)"
  have l2: "load_session sid ?v2 = Inr (JObj d')"
    by (simp add: u load_session_committed)
  then have ex2: "file_exists (sessions_dir ?v2) (session_path sid)"
    by (auto simp: load_session_def Let_def split: if_splits)
  have d: "delete_session e3 sid ?v2 =
      (log_event e3 ''session_deleted'' [(''session_id'', JStr sid)]
         (?v2\<lparr>sessions_dir := AList.delete (session_path sid) (sessions_dir ?v2)\<rparr>),
       Inr (JObj [(''status'', JStr ''deleted''), (''id'', JStr sid)]))"
    using l2 ex2 by (simp add: delete_session_def unlink_def)
  have vf: "vf = fst (delete_session e3 sid ?v2)"
    by (simp add: vf_def run_def)
  have ll: "log_lines vf = log_lines v @
      [Entry (JObj (dict_merge [(''ts'', JFloat (log_ts e1)), (''time'', JStr (log_time e1)),
          (''event'', JStr ''session_created''), (''container'', JStr (container e1))]
          [(''session_id'', JStr sid), (''name'', ?nm)])),
       Entry (JObj (dict_merge [(''ts'', JFloat (log_ts e2)), (''time'', JStr (log_time e2)),
          (''event'', JStr ''session_updated''), (''container'', JStr (container e2))]
          [(''session_id'', JStr sid)])),
       Entry (JObj (dict_merge [(''ts'', JFloat (log_ts e3)), (''time'', JStr (log_time e3)),
          (''event'', JStr ''session_deleted''), (''container'', JStr (container e3))]
          [(''session_id'', JStr sid)]))]"
    unfolding vf d by (simp add: log_lines_log_event u ll1)
  have "log_lines vf = log_lines v @ appended v vf
       \<and> map event_sig (appended v vf) =
           [(Some (JStr ''session_created''), Some (JStr sid)),
            (Some (JStr ''session_updated''), Some (JStr sid)),
            (Some (JStr ''session_deleted''), Some (JStr sid))]"
    unfolding appended_def ll
    by (simp add: event_sig_def dict_merge_def dict_set_def dict_get_def)
  then show ?thesis by (simp add: vf_def)
qed


lemma take_ge3_write_steps: "3 \<le> k \<Longrightarrow> take k (write_steps p x) = write_steps p x"
  by (simp add: write_steps_def Let_def)

lemma save_session_upto_ge3: "3 \<le> k \<Longrightarrow> save_session_upto k pstr s v = save_session pstr s v"
  unfolding save_session_def save_session_upto_def
  by (simp add: take_ge3_write_steps split: sum.splits)

lemma save_stats_upto_ge3: "3 \<le> k \<Longrightarrow> save_stats_upto k s v = save_stats s v"
  unfolding save_stats_def save_stats_upto_def
  by (simp add: take_ge3_write_steps)

lemma save_stats_upto_frame:
  "sessions_dir (fst (save_stats_upto k s v)) = sessions_dir v"
  "log_lines (fst (save_stats_upto k s v)) = log_lines v"
  by (auto simp: save_stats_upto_def split: prod.splits option.splits)

lemma save_stats_upto_0: "fst (save_stats_upto 0 s v) = v"
  by (simp add: save_stats_upto_def)

lemma log_event_upto_0: "log_event_upto 0 e kind extra v = v"
  by (simp add: log_event_upto_def)

lemma log_event_upto_pos: "0 < k \<Longrightarrow> log_event_upto k e kind extra v = log_event e kind extra v"
  by (simp add: log_event_upto_def)

lemma update_session_upto_complete:
  "update_session_upto (4 + k) pstr e now sid body v = fst (update_session pstr e now sid body v)"
proof -
  have 1: "\<And>s. save_session_upto (4 + k) pstr s v = save_session pstr s v"
    by (rule save_session_upto_ge3) simp
  have 2: "\<And>kind extra w. log_event_upto (4 + k - 3) e kind extra w = log_event e kind extra w"
    by (rule log_event_upto_pos) simp
  show ?thesis
    unfolding update_session_upto_def update_session_def 1 2
    by (simp split: sum.splits prod.splits)
qed

lemma delete_session_upto_complete:
  "delete_session_upto (2 + k) e sid v = fst (delete_session e sid v)"
proof -
  have 1: "\<And>d n. unlink_upto (2 + k) d n = unlink d n"
    by (simp add: unlink_upto_def)
  have 2: "\<And>kind extra w. log_event_upto (2 + k - 1) e kind extra w = log_event e kind extra w"
    by (rule log_event_upto_pos) simp
  show ?thesis
    unfolding delete_session_upto_def delete_session_def 1 2
    by (simp split: sum.splits prod.splits)
qed

lemma stats_tail:
  "(case load_stats v2 of Inl err \<Rightarrow> v2 | Inr s \<Rightarrow>
      (case py_get s ''total_sessions'' (JInt 0) of Inl err \<Rightarrow> v2 | Inr c \<Rightarrow>
      (case py_add1 c of Inl err \<Rightarrow> v2 | Inr c' \<Rightarrow>
      (case py_setitem s ''total_sessions'' c' of Inl err \<Rightarrow> v2 | Inr s' \<Rightarrow>
        fst (save_stats s' v2))))) =
   fst (case load_stats v2 of Inl err \<Rightarrow> (v2, Inl err) | Inr s \<Rightarrow>
      (case py_get s ''total_sessions'' (JInt 0) of Inl err \<Rightarrow> (v2, Inl err) | Inr c \<Rightarrow>
      (case py_add1 c of Inl err \<Rightarrow> (v2, Inl err) | Inr c' \<Rightarrow>
      (case py_setitem s ''total_sessions'' c' of Inl err \<Rightarrow> (v2, Inl err) | Inr s' \<Rightarrow>
      (case save_stats s' v2 of (v3, Inl err) \<Rightarrow> (v3, Inl err) | (v3, Inr _) \<Rightarrow>
        (v3, Inr sess))))))"
  by (simp add: save_stats_eq split: sum.splits)

lemma create_session_upto_complete:
  "create_session_upto (7 + k) pstr e sid now body v = fst (create_session pstr e sid now body v)"
proof -
  have 1: "\<And>s. save_session_upto (7 + k) pstr s v = save_session pstr s v"
    by (rule save_session_upto_ge3) simp
  have 2: "\<And>kind extra w. log_event_upto (7 + k - 3) e kind extra w = log_event e kind extra w"
    by (rule log_event_upto_pos) simp
  have 3: "\<And>s w. save_stats_upto (7 + k - 4) s w = save_stats s w"
    by (rule save_stats_upto_ge3) simp
  let ?body = "if py_truthy body then body else JObj []"
  show ?thesis
  proof (cases "py_get ?body ''name'' (JStr ''unnamed'')")
    case (Inl err)
    then show ?thesis by (simp add: create_session_upto_def create_session_def Let_def)
  next
    case nm: (Inr nm)
    show ?thesis
    proof (cases "py_get ?body ''data'' (JObj [])")
      case (Inl err)
      then show ?thesis using nm by (simp add: create_session_upto_def create_session_def Let_def)
    next
      case dt: (Inr dt)
      let ?sess = "JObj [(''id'', JStr sid), (''name'', nm), (''data'', dt),
                       (''created_at'', JStr now), (''last_active'', JStr now),
                       (''access_count'', JInt 0)]"
      have sv: "save_session pstr ?sess v =
          (v\<lparr>sessions_dir := committed (session_path sid) ?sess (sessions_dir v)\<rparr>, Inr ())"
        by (rule save_session_eq [where i = "JStr sid", simplified]) (simp add: dict_get_def)
      show ?thesis
        unfolding create_session_upto_def create_session_def Let_def 1 2 3 nm dt sum.case sv
          prod.case
        by (rule stats_tail)
    qed
  qed
qed

lemma stats_tail_frame:
  "sessions_dir (case load_stats v2 of Inl err \<Rightarrow> v2 | Inr s \<Rightarrow>
      (case py_get s ''total_sessions'' (JInt 0) of Inl err \<Rightarrow> v2 | Inr c \<Rightarrow>
      (case py_add1 c of Inl err \<Rightarrow> v2 | Inr c' \<Rightarrow>
      (case py_setitem s ''total_sessions'' c' of Inl err \<Rightarrow> v2 | Inr s' \<Rightarrow>
        fst (save_stats_upto m s' v2))))) = sessions_dir v2"
  "log_lines (case load_stats v2 of Inl err \<Rightarrow> v2 | Inr s \<Rightarrow>
      (case py_get s ''total_sessions'' (JInt 0) of Inl err \<Rightarrow> v2 | Inr c \<Rightarrow>
      (case py_add1 c of Inl err \<Rightarrow> v2 | Inr c' \<Rightarrow>
      (case py_setitem s ''total_sessions'' c' of Inl err \<Rightarrow> v2 | Inr s' \<Rightarrow>
        fst (save_stats_upto m s' v2))))) = log_lines v2"
  by (simp_all add: save_stats_upto_frame split: sum.splits)

lemma stats_tail_0:
  "(case load_stats v2 of Inl err \<Rightarrow> v2 | Inr s \<Rightarrow>
      (case py_get s ''total_sessions'' (JInt 0) of Inl err \<Rightarrow> v2 | Inr c \<Rightarrow>
      (case py_add1 c of Inl err \<Rightarrow> v2 | Inr c' \<Rightarrow>
      (case py_setitem s ''total_sessions'' c' of Inl err \<Rightarrow> v2 | Inr s' \<Rightarrow>
        fst (save_stats_upto 0 s' v2))))) = v2"
  by (simp add: save_stats_upto_0 split: sum.splits)

lemma appended_cong: "log_lines vk = log_lines w \<Longrightarrow> appended v vk = appended v w"
  by (simp add: appended_def)

lemma save_session_upto_new:
  "save_session_upto k pstr (JObj (new_session sid now b)) v =
     (v\<lparr>sessions_dir := fst (run_steps (take k (write_steps (session_path sid)
          (JObj (new_session sid now b)))) (sessions_dir v))\<rparr>, Inr ())"
proof -
  let ?r = "run_steps (take k (write_steps (session_path sid) (JObj (new_session sid now b))))
              (sessions_dir v)"
  have "snd ?r = None"
    by (simp add: write_steps_def Let_def write_upto_no_error)
  then have r: "?r = (fst ?r, None)" by (simp add: prod_eq_iff)
  have g: "py_getitem (JObj (new_session sid now b)) ''id'' = Inr (JStr sid)"
    by (rule get_new_session)
  show ?thesis
    unfolding save_session_upto_def g sum.case fstring.simps
    by (subst r) simp
qed

lemma create_session_upto_early:
  assumes "k \<le> 3"
  shows "create_session_upto k pstr e sid now (JObj b) v =
           fst (save_session_upto k pstr (JObj (new_session sid now b)) v)"
proof -
  have k: "k - 3 = 0" "k - 4 = 0" using assms by simp_all
  have b: "(if py_truthy (JObj b) then JObj b else JObj []) = JObj b" by simp
  show ?thesis
    unfolding create_session_upto_def Let_def b k log_event_upto_0 stats_tail_0
    by (simp add: new_session_def [symmetric] save_session_upto_new)
qed

lemma create_session_upto_late:
  assumes "4 \<le> k"
  shows "sessions_dir (create_session_upto k pstr e sid now (JObj b) v) =
           committed (session_path sid) (JObj (new_session sid now b)) (sessions_dir v)"
    and "log_lines (create_session_upto k pstr e sid now (JObj b) v) =
           log_lines (log_event e ''session_created''
             [(''session_id'', JStr sid),
              (''name'', case dict_get b ''name'' of None \<Rightarrow> JStr ''unnamed'' | Some x \<Rightarrow> x)] v)"
proof -
  have 1: "\<And>s. save_session_upto k pstr s v = save_session pstr s v"
    by (rule save_session_upto_ge3) (use assms in simp)
  have 2: "\<And>kind extra w. log_event_upto (k - 3) e kind extra w = log_event e kind extra w"
    by (rule log_event_upto_pos) (use assms in simp)
  have b: "(if py_truthy (JObj b) then JObj b else JObj []) = JObj b" by simp
  have id: "dict_get (new_session sid now b) ''id'' = Some (JStr sid)"
    by (simp add: new_session_def dict_get_def)
  have sv: "save_session pstr (JObj (new_session sid now b)) v =
      (v\<lparr>sessions_dir := committed (session_path sid) (JObj (new_session sid now b)) (sessions_dir v)\<rparr>,
       Inr ())"
    using save_session_eq [OF id, of pstr v] by simp
  have c: "create_session_upto k pstr e sid now (JObj b) v =
     (case load_stats (log_event e ''session_created''
             [(''session_id'', JStr sid),
              (''name'', case dict_get b ''name'' of None \<Rightarrow> JStr ''unnamed'' | Some x \<Rightarrow> x)]
             (v\<lparr>sessions_dir := committed (session_path sid) (JObj (new_session sid now b)) (sessions_dir v)\<rparr>)) of
        Inl err \<Rightarrow> log_event e ''session_created''
             [(''session_id'', JStr sid),
              (''name'', case dict_get b ''name'' of None \<Rightarrow> JStr ''unnamed'' | Some x \<Rightarrow> x)]
             (v\<lparr>sessions_dir := committed (session_path sid) (JObj (new_session sid now b)) (sessions_dir v)\<rparr>)
      | Inr s \<Rightarrow>
      (case py_get s ''total_sessions'' (JInt 0) of Inl err \<Rightarrow> log_event e ''session_created''
             [(''session_id'', JStr sid),
              (''name'', case dict_get b ''name'' of None \<Rightarrow> JStr ''unnamed'' | Some x \<Rightarrow> x)]
             (v\<lparr>sessions_dir := committed (session_path sid) (JObj (new_session sid now b)) (sessions_dir v)\<rparr>)
       | Inr c \<Rightarrow>
      (case py_add1 c of Inl err \<Rightarrow> log_event e ''session_created''
             [(''session_id'', JStr sid),
              (''name'', case dict_get b ''name'' of None \<Rightarrow> JStr ''unnamed'' | Some x \<Rightarrow> x)]
             (v\<lparr>sessions_dir := committed (session_path sid) (JObj (new_session sid now b)) (sessions_dir v)\<rparr>)
       | Inr c' \<Rightarrow>
      (case py_setitem s ''total_sessions'' c' of Inl err \<Rightarrow> log_event e ''session_created''
             [(''session_id'', JStr sid),
              (''name'', case dict_get b ''name'' of None \<Rightarrow> JStr ''unnamed'' | Some x \<Rightarrow> x)]
             (v\<lparr>sessions_dir := committed (session_path sid) (JObj (new_session sid now b)) (sessions_dir v)\<rparr>)
       | Inr s' \<Rightarrow>
        fst (save_stats_upto (k - 4) s' (log_event e ''session_created''
             [(''session_id'', JStr sid),
              (''name'', case dict_get b ''name'' of None \<Rightarrow> JStr ''unnamed'' | Some x \<Rightarrow> x)]
             (v\<lparr>sessions_dir := committed (session_path sid) (JObj (new_session sid now b)) (sessions_dir v)\<rparr>)))))))"
    unfolding create_session_upto_def Let_def b 1 2
    by (simp add: new_session_def [symmetric] sv)
  show "sessions_dir (create_session_upto k pstr e sid now (JObj b) v) =
           committed (session_path sid) (JObj (new_session sid now b)) (sessions_dir v)"
    unfolding c stats_tail_frame by simp
  show "log_lines (create_session_upto k pstr e sid now (JObj b) v) =
           log_lines (log_event e ''session_created''
             [(''session_id'', JStr sid),
              (''name'', case dict_get b ''name'' of None \<Rightarrow> JStr ''unnamed'' | Some x \<Rightarrow> x)] v)"
    unfolding c stats_tail_frame by (simp add: log_lines_log_event)
qed

lemma event_sig_entry:
  "event_sig (Entry (JObj (dict_merge [(''ts'', JFloat (log_ts e)), (''time'', JStr (log_time e)),
        (''event'', JStr kind), (''container'', JStr (container e))] [(''session_id'', JStr sid)]))) =
     (Some (JStr kind), Some (JStr sid))"
  "event_sig (Entry (JObj (dict_merge [(''ts'', JFloat (log_ts e)), (''time'', JStr (log_time e)),
        (''event'', JStr kind), (''container'', JStr (container e))]
        [(''session_id'', JStr sid), (''name'', nm)]))) =
     (Some (JStr kind), Some (JStr sid))"
  by (simp_all add: event_sig_def dict_merge_def dict_set_def dict_get_def)

lemma event_after_recordI:
  assumes "sessions_dir vk = sessions_dir vf"
    and "log_lines vk = log_lines v @ [l]"
    and "event_sig l = (Some (JStr kind), Some (JStr sid))"
  shows "event_after_record v vk vf kind sid"
  using assms by (simp add: event_after_record_def appended_def)

lemma create_session_final:
  "sessions_dir (fst (create_session pstr e sid now (JObj b) v)) =
     committed (session_path sid) (JObj (new_session sid now b)) (sessions_dir v)"
  "log_lines (fst (create_session pstr e sid now (JObj b) v)) =
     log_lines (log_event e ''session_created''
        [(''session_id'', JStr sid),
         (''name'', case dict_get b ''name'' of None \<Rightarrow> JStr ''unnamed'' | Some x \<Rightarrow> x)] v)"
  using create_session_upto_late [of 7 pstr e sid now b v]
    create_session_upto_complete [of 0 pstr e sid now "JObj b" v]
  by simp_all

lemma create_record_then_event:
  "event_after_record v (create_session_upto k pstr e sid now (JObj b) v)
     (fst (create_session pstr e sid now (JObj b) v)) ''session_created'' sid"
proof (cases "k \<le> 3")
  case True
  then show ?thesis
    by (simp add: event_after_record_def create_session_upto_early log_lines_save_session)
next
  case False
  then have k: "4 \<le> k" by simp
  show ?thesis
    by (rule event_after_recordI [where l = "Entry (JObj (dict_merge
          [(''ts'', JFloat (log_ts e)), (''time'', JStr (log_time e)),
           (''event'', JStr ''session_created''), (''container'', JStr (container e))]
          [(''session_id'', JStr sid),
           (''name'', case dict_get b ''name'' of None \<Rightarrow> JStr ''unnamed'' | Some x \<Rightarrow> x)]))"])
       (simp_all add: create_session_upto_late [OF k] create_session_final log_lines_log_event
          event_sig_entry)
qed

lemma create_record_first:
  "get_session sid (create_session_upto 3 pstr e sid now (JObj b) v) = Inr (JObj (new_session sid now b))"
  "sessions_dir (create_session_upto 3 pstr e sid now (JObj b) v) =
     sessions_dir (fst (create_session pstr e sid now (JObj b) v))"
  "log_lines (create_session_upto 3 pstr e sid now (JObj b) v) = log_lines v"
proof -
  have id: "dict_get (new_session sid now b) ''id'' = Some (JStr sid)"
    by (simp add: new_session_def dict_get_def)
  have c: "create_session_upto 3 pstr e sid now (JObj b) v =
      v\<lparr>sessions_dir := committed (session_path sid) (JObj (new_session sid now b)) (sessions_dir v)\<rparr>"
    using save_session_eq [OF id, of pstr v]
    by (simp add: create_session_upto_early save_session_def [symmetric])
  show "get_session sid (create_session_upto 3 pstr e sid now (JObj b) v) = Inr (JObj (new_session sid now b))"
    unfolding c by (simp add: get_session_committed)
  show "sessions_dir (create_session_upto 3 pstr e sid now (JObj b) v) =
     sessions_dir (fst (create_session pstr e sid now (JObj b) v))"
    unfolding c by (simp add: create_session_final)
  show "log_lines (create_session_upto 3 pstr e sid now (JObj b) v) = log_lines v"
    unfolding c by simp
qed

lemma create_one_event:
  "map event_sig (appended v (fst (create_session pstr e sid now (JObj b) v))) =
     [(Some (JStr ''session_created''), Some (JStr sid))]"
  by (simp add: appended_def create_session_final log_lines_log_event event_sig_entry)

lemma update_session_InrD2:
  assumes "update_session pstr e now sid body v = (vu, Inr s')"
  shows "\<exists>sess0. load_session sid v = Inr sess0 \<and> update_fields now body sess0 = Inr s'
           \<and> snd (save_session pstr s' v) = Inr ()"
  using assms by (auto simp: update_session_def split: sum.splits prod.splits)

lemma update_record_then_event:
  assumes "update_session pstr e now sid body v = (vu, Inr s')"
  shows "event_after_record v (update_session_upto k pstr e now sid body v) vu ''session_updated'' sid"
    and "update_session_upto 3 pstr e now sid body v = fst (save_session pstr s' v)"
    and "sessions_dir vu = sessions_dir (fst (save_session pstr s' v))"
    and "map event_sig (appended v vu) = [(Some (JStr ''session_updated''), Some (JStr sid))]"
    and "update_session_upto (4 + m) pstr e now sid body v = vu"
proof -
  from update_session_InrD2 [OF assms] obtain sess0 where
    l: "load_session sid v = Inr sess0" and u: "update_fields now body sess0 = Inr s'"
    and s: "snd (save_session pstr s' v) = Inr ()" by blast
  have vu: "vu = log_event e ''session_updated'' [(''session_id'', JStr sid)] (fst (save_session pstr s' v))"
    by (rule update_session_InrD [OF assms])
  have full: "\<And>m. update_session_upto (4 + m) pstr e now sid body v = vu"
    using assms by (simp add: update_session_upto_complete)
  have early: "\<And>k. k \<le> 3 \<Longrightarrow> log_lines (update_session_upto k pstr e now sid body v) = log_lines v"
  proof -
    fix k :: nat assume "k \<le> 3"
    then have k: "k - 3 = 0" by simp
    have "update_session_upto k pstr e now sid body v = fst (save_session_upto k pstr s' v)"
      unfolding update_session_upto_def l u sum.case k log_event_upto_0
      by (simp split: prod.splits sum.splits)
    then show "log_lines (update_session_upto k pstr e now sid body v) = log_lines v"
      by (simp add: log_lines_save_session)
  qed
  show three: "update_session_upto 3 pstr e now sid body v = fst (save_session pstr s' v)"
    unfolding update_session_upto_def l u sum.case
    by (simp add: log_event_upto_0 save_session_def [symmetric] split: prod.splits sum.splits)
  show "sessions_dir vu = sessions_dir (fst (save_session pstr s' v))"
    by (simp add: vu)
  have ll: "log_lines vu = log_lines v @
      [Entry (JObj (dict_merge [(''ts'', JFloat (log_ts e)), (''time'', JStr (log_time e)),
        (''event'', JStr ''session_updated''), (''container'', JStr (container e))]
        [(''session_id'', JStr sid)]))]"
    unfolding vu log_lines_log_event
    using log_lines_save_session [of 3 pstr s' v] by (simp add: save_session_def)
  show "map event_sig (appended v vu) = [(Some (JStr ''session_updated''), Some (JStr sid))]"
    by (simp add: appended_def ll event_sig_entry)
  show "update_session_upto (4 + m) pstr e now sid body v = vu" by (rule full)
  show "event_after_record v (update_session_upto k pstr e now sid body v) vu ''session_updated'' sid"
  proof (cases "k \<le> 3")
    case True
    then show ?thesis by (simp add: event_after_record_def early)
  next
    case False
    then have "k = 4 + (k - 4)" by simp
    then have "update_session_upto k pstr e now sid body v = vu" using full [of "k - 4"] by simp
    then show ?thesis
      using ll by (intro event_after_recordI [where l = "Entry (JObj (dict_merge [(''ts'', JFloat (log_ts e)), (''time'', JStr (log_time e)),
        (''event'', JStr ''session_updated''), (''container'', JStr (container e))]
        [(''session_id'', JStr sid)]))"]) (simp_all add: event_sig_entry)
  qed
qed

lemma delete_record_then_event:
  assumes "delete_session e sid v = (vd, Inr r)"
  shows "event_after_record v (delete_session_upto k e sid v) vd ''session_deleted'' sid"
    and "delete_session_upto 1 e sid v =
           v\<lparr>sessions_dir := AList.delete (session_path sid) (sessions_dir v)\<rparr>"
    and "sessions_dir vd = AList.delete (session_path sid) (sessions_dir v)"
    and "map event_sig (appended v vd) = [(Some (JStr ''session_deleted''), Some (JStr sid))]"
    and "delete_session_upto (2 + m) e sid v = vd"
proof -
  from assms obtain j where l: "load_session sid v = Inr j"
    and ul: "unlink (sessions_dir v) (session_path sid) =
               Inr (AList.delete (session_path sid) (sessions_dir v))"
    by (auto simp: delete_session_def unlink_def split: sum.splits if_splits)
  have vd: "vd = log_event e ''session_deleted'' [(''session_id'', JStr sid)]
           (v\<lparr>sessions_dir := AList.delete (session_path sid) (sessions_dir v)\<rparr>)"
    by (rule delete_session_InrD [OF assms])
  have full: "\<And>m. delete_session_upto (2 + m) e sid v = vd"
  proof -
    fix m
    show "delete_session_upto (2 + m) e sid v = vd"
      unfolding delete_session_upto_complete assms by simp
  qed
  have zero: "delete_session_upto 0 e sid v = v"
    by (simp add: delete_session_upto_def l unlink_upto_def log_event_upto_0)
  show one: "delete_session_upto 1 e sid v =
           v\<lparr>sessions_dir := AList.delete (session_path sid) (sessions_dir v)\<rparr>"
    by (simp add: delete_session_upto_def l unlink_upto_def ul log_event_upto_0)
  show "sessions_dir vd = AList.delete (session_path sid) (sessions_dir v)"
    by (simp add: vd)
  have ll: "log_lines vd = log_lines v @
      [Entry (JObj (dict_merge [(''ts'', JFloat (log_ts e)), (''time'', JStr (log_time e)),
        (''event'', JStr ''session_deleted''), (''container'', JStr (container e))]
        [(''session_id'', JStr sid)]))]"
    unfolding vd log_lines_log_event by simp
  show "map event_sig (appended v vd) = [(Some (JStr ''session_deleted''), Some (JStr sid))]"
    by (simp add: appended_def ll event_sig_entry)
  show "delete_session_upto (2 + m) e sid v = vd" by (rule full)
  show "event_after_record v (delete_session_upto k e sid v) vd ''session_deleted'' sid"
  proof -
    consider "k = 0" | "k = 1" | "2 \<le> k" by linarith
    then show ?thesis
    proof cases
      case 1
      then show ?thesis by (simp add: event_after_record_def zero)
    next
      case 2
      then show ?thesis using one by (simp add: event_after_record_def)
    next
      case 3
      then have "k = 2 + (k - 2)" by simp
      then have "delete_session_upto k e sid v = vd" using full [of "k - 2"] by simp
      then show ?thesis
        using ll by (intro event_after_recordI [where l = "Entry (JObj (dict_merge [(''ts'', JFloat (log_ts e)), (''time'', JStr (log_time e)),
        (''event'', JStr ''session_deleted''), (''container'', JStr (container e))]
        [(''session_id'', JStr sid)]))"]) (simp_all add: event_sig_entry)
    qed
  qed
qed

text \<open>
  C8. Stopped after any number of steps, each of \<open>create_session\<close>,
  \<open>update_session\<close> and \<open>delete_session\<close> (the last two when they return) has
  either added no line to the log yet, or has the session directory as the operation
  leaves it and has added exactly one line, of its kind and for its identifier: the
  change to the record is on disk before the event is in the log. After the three steps
  of the write (the one step of the unlink) the record is changed and the log is as
  before; stopped after all its steps the handler has done what the complete handler
  does, and that has added exactly one line. So create, update and delete of one
  identifier, in that order, add to the log a \<open>session_created\<close>, a
  \<open>session_updated\<close> and a \<open>session_deleted\<close> line for the identifier, in that
  order.
\<close>

theorem record_write_then_event:
  "(\<forall>k. event_after_record v (create_session_upto k pstr e sid now (JObj b) v)
          (fst (create_session pstr e sid now (JObj b) v)) ''session_created'' sid)
   \<and> get_session sid (create_session_upto 3 pstr e sid now (JObj b) v) =
       Inr (JObj (new_session sid now b))
   \<and> sessions_dir (create_session_upto 3 pstr e sid now (JObj b) v) =
       sessions_dir (fst (create_session pstr e sid now (JObj b) v))
   \<and> log_lines (create_session_upto 3 pstr e sid now (JObj b) v) = log_lines v
   \<and> map event_sig (appended v (fst (create_session pstr e sid now (JObj b) v))) =
       [(Some (JStr ''session_created''), Some (JStr sid))]
   \<and> (\<forall>m. create_session_upto (7 + m) pstr e sid now (JObj b) v =
            fst (create_session pstr e sid now (JObj b) v))
   \<and> (update_session pstr e now sid body v = (vu, Inr s') \<longrightarrow>
        (\<forall>k. event_after_record v (update_session_upto k pstr e now sid body v) vu
              ''session_updated'' sid)
        \<and> update_session_upto 3 pstr e now sid body v = fst (save_session pstr s' v)
        \<and> sessions_dir vu = sessions_dir (fst (save_session pstr s' v))
        \<and> log_lines (fst (save_session pstr s' v)) = log_lines v
        \<and> map event_sig (appended v vu) = [(Some (JStr ''session_updated''), Some (JStr sid))]
        \<and> (\<forall>m. update_session_upto (4 + m) pstr e now sid body v = vu))
   \<and> (delete_session e sid v = (vd, Inr r) \<longrightarrow>
        (\<forall>k. event_after_record v (delete_session_upto k e sid v) vd ''session_deleted'' sid)
        \<and> delete_session_upto 1 e sid v =
            v\<lparr>sessions_dir := AList.delete (session_path sid) (sessions_dir v)\<rparr>
        \<and> sessions_dir vd = AList.delete (session_path sid) (sessions_dir v)
        \<and> map event_sig (appended v vd) = [(Some (JStr ''session_deleted''), Some (JStr sid))]
        \<and> (\<forall>m. delete_session_upto (2 + m) e sid v = vd))
   \<and> log_lines (run pstr [Create e1 sid now1 (JObj b1), Update e2 now2 sid (JObj b2), Delete e3 sid] v) =
       log_lines v @ appended v
         (run pstr [Create e1 sid now1 (JObj b1), Update e2 now2 sid (JObj b2), Delete e3 sid] v)
   \<and> map event_sig (appended v
         (run pstr [Create e1 sid now1 (JObj b1), Update e2 now2 sid (JObj b2), Delete e3 sid] v)) =
           [(Some (JStr ''session_created''), Some (JStr sid)),
            (Some (JStr ''session_updated''), Some (JStr sid)),
            (Some (JStr ''session_deleted''), Some (JStr sid))]"
proof -
  have c: "(\<forall>k. event_after_record v (create_session_upto k pstr e sid now (JObj b) v)
          (fst (create_session pstr e sid now (JObj b) v)) ''session_created'' sid)
   \<and> get_session sid (create_session_upto 3 pstr e sid now (JObj b) v) =
       Inr (JObj (new_session sid now b))
   \<and> sessions_dir (create_session_upto 3 pstr e sid now (JObj b) v) =
       sessions_dir (fst (create_session pstr e sid now (JObj b) v))
   \<and> log_lines (create_session_upto 3 pstr e sid now (JObj b) v) = log_lines v
   \<and> map event_sig (appended v (fst (create_session pstr e sid now (JObj b) v))) =
       [(Some (JStr ''session_created''), Some (JStr sid))]
   \<and> (\<forall>m. create_session_upto (7 + m) pstr e sid now (JObj b) v =
            fst (create_session pstr e sid now (JObj b) v))"
    by (intro conjI allI create_record_then_event create_record_first create_one_event
        create_session_upto_complete)
  have u: "update_session pstr e now sid body v = (vu, Inr s') \<longrightarrow>
        (\<forall>k. event_after_record v (update_session_upto k pstr e now sid body v) vu
              ''session_updated'' sid)
        \<and> update_session_upto 3 pstr e now sid body v = fst (save_session pstr s' v)
        \<and> sessions_dir vu = sessions_dir (fst (save_session pstr s' v))
        \<and> log_lines (fst (save_session pstr s' v)) = log_lines v
        \<and> map event_sig (appended v vu) = [(Some (JStr ''session_updated''), Some (JStr sid))]
        \<and> (\<forall>m. update_session_upto (4 + m) pstr e now sid body v = vu)"
  proof
    assume a: "update_session pstr e now sid body v = (vu, Inr s')"
    have "log_lines (fst (save_session pstr s' v)) = log_lines v"
      using log_lines_save_session [of 3 pstr s' v] by (simp add: save_session_def)
    then show "(\<forall>k. event_after_record v (update_session_upto k pstr e now sid body v) vu
              ''session_updated'' sid)
        \<and> update_session_upto 3 pstr e now sid body v = fst (save_session pstr s' v)
        \<and> sessions_dir vu = sessions_dir (fst (save_session pstr s' v))
        \<and> log_lines (fst (save_session pstr s' v)) = log_lines v
        \<and> map event_sig (appended v vu) = [(Some (JStr ''session_updated''), Some (JStr sid))]
        \<and> (\<forall>m. update_session_upto (4 + m) pstr e now sid body v = vu)"
      using update_record_then_event [OF a] by blast
  qed
  have d: "delete_session e sid v = (vd, Inr r) \<longrightarrow>
        (\<forall>k. event_after_record v (delete_session_upto k e sid v) vd ''session_deleted'' sid)
        \<and> delete_session_upto 1 e sid v =
            v\<lparr>sessions_dir := AList.delete (session_path sid) (sessions_dir v)\<rparr>
        \<and> sessions_dir vd = AList.delete (session_path sid) (sessions_dir v)
        \<and> map event_sig (appended v vd) = [(Some (JStr ''session_deleted''), Some (JStr sid))]
        \<and> (\<forall>m. delete_session_upto (2 + m) e sid v = vd)"
  proof
    assume a: "delete_session e sid v = (vd, Inr r)"
    show "(\<forall>k. event_after_record v (delete_session_upto k e sid v) vd ''session_deleted'' sid)
        \<and> delete_session_upto 1 e sid v =
            v\<lparr>sessions_dir := AList.delete (session_path sid) (sessions_dir v)\<rparr>
        \<and> sessions_dir vd = AList.delete (session_path sid) (sessions_dir v)
        \<and> map event_sig (appended v vd) = [(Some (JStr ''session_deleted''), Some (JStr sid))]
        \<and> (\<forall>m. delete_session_upto (2 + m) e sid v = vd)"
      using delete_record_then_event [OF a] by blast
  qed
  show ?thesis
    using c u d create_update_delete_log [of pstr e1 sid now1 b1 e2 now2 b2 e3 v]
    by blast
qed

theorem record_write_then_event_witness:
  "get_session ''a'' (update_session_upto 3 (\<lambda>x. []) \<lparr>container = ''c'', log_ts = 0, log_time = ''t''\<rparr>
        ''now'' ''a'' JNull
        \<lparr>data_dir = [],
         sessions_dir = [(''a.json'', Doc (JObj [(''id'', JStr ''a''), (''access_count'', JInt 0)]))],
         events_file = None\<rparr>) =
     Inr (JObj [(''id'', JStr ''a''), (''access_count'', JInt 1), (''last_active'', JStr ''now'')])
   \<and> log_lines (update_session_upto 3 (\<lambda>x. []) \<lparr>container = ''c'', log_ts = 0, log_time = ''t''\<rparr>
        ''now'' ''a'' JNull
        \<lparr>data_dir = [],
         sessions_dir = [(''a.json'', Doc (JObj [(''id'', JStr ''a''), (''access_count'', JInt 0)]))],
         events_file = None\<rparr>) = []
   \<and> map event_sig (log_lines (update_session_upto 4 (\<lambda>x. [])
        \<lparr>container = ''c'', log_ts = 0, log_time = ''t''\<rparr> ''now'' ''a'' JNull
        \<lparr>data_dir = [],
         sessions_dir = [(''a.json'', Doc (JObj [(''id'', JStr ''a''), (''access_count'', JInt 0)]))],
         events_file = None\<rparr>)) = [(Some (JStr ''session_updated''), Some (JStr ''a''))]
   \<and> delete_session_upto 1 \<lparr>container = ''c'', log_ts = 0, log_time = ''t''\<rparr> ''a''
        \<lparr>data_dir = [],
         sessions_dir = [(''a.json'', Doc (JObj [(''id'', JStr ''a''), (''access_count'', JInt 0)]))],
         events_file = None\<rparr> = \<lparr>data_dir = [], sessions_dir = [], events_file = None\<rparr>
   \<and> map event_sig (log_lines (delete_session_upto 2 \<lparr>container = ''c'', log_ts = 0, log_time = ''t''\<rparr> ''a''
        \<lparr>data_dir = [],
         sessions_dir = [(''a.json'', Doc (JObj [(''id'', JStr ''a''), (''access_count'', JInt 0)]))],
         events_file = None\<rparr>)) = [(Some (JStr ''session_deleted''), Some (JStr ''a''))]
   \<and> map event_sig (appended empty_volume (run (\<lambda>x. [])
        [Create \<lparr>container = ''c'', log_ts = 0, log_time = ''t''\<rparr> ''a'' ''now'' (JObj []),
         Update \<lparr>container = ''c'', log_ts = 0, log_time = ''t''\<rparr> ''now'' ''a'' (JObj []),
         Delete \<lparr>container = ''c'', log_ts = 0, log_time = ''t''\<rparr> ''a''] empty_volume)) =
       [(Some (JStr ''session_created''), Some (JStr ''a'')),
        (Some (JStr ''session_updated''), Some (JStr ''a'')),
        (Some (JStr ''session_deleted''), Some (JStr ''a''))]"
proof -
  let ?e = "\<lparr>container = ''c'', log_ts = 0, log_time = ''t''\<rparr>"
  let ?v = "\<lparr>data_dir = [],
         sessions_dir = [(''a.json'', Doc (JObj [(''id'', JStr ''a''), (''access_count'', JInt 0)]))],
         events_file = None\<rparr>"
  let ?s = "JObj [(''id'', JStr ''a''), (''access_count'', JInt 1), (''last_active'', JStr ''now'')]"
  let ?r = "JObj [(''status'', JStr ''deleted''), (''id'', JStr ''a'')]"
  let ?vu = "fst (update_session (\<lambda>x. []) ?e ''now'' ''a'' JNull ?v)"
  let ?vd = "fst (delete_session ?e ''a'' ?v)"
  have l: "load_session ''a'' ?v = Inr (JObj [(''id'', JStr ''a''), (''access_count'', JInt 0)])"
    by (simp add: load_session_def session_path_def file_exists_def read_json_def)
  have uf: "update_fields ''now'' JNull (JObj [(''id'', JStr ''a''), (''access_count'', JInt 0)]) = Inr ?s"
    by (simp add: update_fields_def dict_get_def dict_set_def)
  have i: "dict_get [(''id'', JStr ''a''), (''access_count'', JInt 1), (''last_active'', JStr ''now'')] ''id''
      = Some (JStr ''a'')" by (simp add: dict_get_def)
  have sv: "save_session (\<lambda>x. []) ?s ?v =
      (?v\<lparr>sessions_dir := committed (session_path ''a'') ?s (sessions_dir ?v)\<rparr>, Inr ())"
    using save_session_eq [OF i, of "\<lambda>x. []" ?v] by simp
  have su: "snd (update_session (\<lambda>x. []) ?e ''now'' ''a'' JNull ?v) = Inr ?s"
    using l uf save_session_eq [OF i, of "\<lambda>x. []" ?v] by (simp add: update_session_def)
  then have hu: "update_session (\<lambda>x. []) ?e ''now'' ''a'' JNull ?v = (?vu, Inr ?s)"
    by (simp add: prod_eq_iff)
  have sd: "snd (delete_session ?e ''a'' ?v) = Inr ?r"
    using l by (simp add: delete_session_def unlink_def file_exists_def session_path_def)
  then have hd: "delete_session ?e ''a'' ?v = (?vd, Inr ?r)"
    by (simp add: prod_eq_iff)
  note T = record_write_then_event [where pstr = "\<lambda>x. []" and e = ?e and now = "''now''"
      and sid = "''a''" and body = JNull and v = ?v and s' = ?s and r = ?r
      and vu = ?vu and vd = ?vd]
  have lv: "log_lines ?v = []" by (simp add: log_lines_def)
  from T hu have u3: "update_session_upto 3 (\<lambda>x. []) ?e ''now'' ''a'' JNull ?v =
      fst (save_session (\<lambda>x. []) ?s ?v)"
    and u3l: "log_lines (fst (save_session (\<lambda>x. []) ?s ?v)) = log_lines ?v"
    and u4: "update_session_upto (4 + 0) (\<lambda>x. []) ?e ''now'' ''a'' JNull ?v = ?vu"
    and us: "map event_sig (appended ?v ?vu) = [(Some (JStr ''session_updated''), Some (JStr ''a''))]"
    by blast+
  from T hd have d1: "delete_session_upto 1 ?e ''a'' ?v =
      ?v\<lparr>sessions_dir := AList.delete (session_path ''a'') (sessions_dir ?v)\<rparr>"
    and d2: "delete_session_upto (2 + 0) ?e ''a'' ?v = ?vd"
    and ds: "map event_sig (appended ?v ?vd) = [(Some (JStr ''session_deleted''), Some (JStr ''a''))]"
    by blast+
  have a1: "get_session ''a'' (update_session_upto 3 (\<lambda>x. []) ?e ''now'' ''a'' JNull ?v) = Inr ?s"
    unfolding u3 sv fst_conv get_session_def by (rule load_session_committed)
  have a2: "log_lines (update_session_upto 3 (\<lambda>x. []) ?e ''now'' ''a'' JNull ?v) = []"
    unfolding u3 u3l by (rule lv)
  have a3: "map event_sig (log_lines (update_session_upto 4 (\<lambda>x. []) ?e ''now'' ''a'' JNull ?v)) =
      [(Some (JStr ''session_updated''), Some (JStr ''a''))]"
    using u4 us lv by (simp add: appended_def)
  have a4: "delete_session_upto 1 ?e ''a'' ?v = \<lparr>data_dir = [], sessions_dir = [], events_file = None\<rparr>"
    unfolding d1 by (simp add: session_path_def)
  have a5: "map event_sig (log_lines (delete_session_upto 2 ?e ''a'' ?v)) =
      [(Some (JStr ''session_deleted''), Some (JStr ''a''))]"
    using d2 ds lv by (simp add: appended_def)
  from record_write_then_event [where pstr = "\<lambda>x. []" and v = empty_volume and sid = "''a''"
      and ?e1.0 = ?e and ?e2.0 = ?e and ?e3.0 = ?e and ?now1.0 = "''now''" and ?now2.0 = "''now''"
      and ?b1.0 = "[]" and ?b2.0 = "[]"]
  have c: "map event_sig (appended empty_volume (run (\<lambda>x. [])
        [Create ?e ''a'' ''now'' (JObj []), Update ?e ''now'' ''a'' (JObj []), Delete ?e ''a'']
        empty_volume)) =
       [(Some (JStr ''session_created''), Some (JStr ''a'')),
        (Some (JStr ''session_updated''), Some (JStr ''a'')),
        (Some (JStr ''session_deleted''), Some (JStr ''a''))]"
    by blast
  show ?thesis using a1 a2 a3 a4 a5 c by blast
qed

end
